theory Spec2Isabelle
  imports Complex_Main
begin

section \<open>The 3D game view (src/composables/useGameView.ts)\<close>

text \<open>
  The composable \<open>useGameView\<close> builds a BABYLON scene on a canvas: a camera, a
  directional light, a shadow generator, a ground and a sky box, then starts the
  render loop and installs a resize listener. It also holds the builders of a field
  of hexagonal columns (\<open>createGround\<close>, \<open>createGroundLine\<close>,
  \<open>createGroundObject\<close>), which \<open>createScene\<close> does not call: its ground is the one
  of \<open>createRealGround\<close>. The mount hook hands the canvas of the reference to \<open>Init\<close>.

  The builders of the field are modelled twice. First with exact arithmetic on
  \<open>real\<close> (\<open>Math.sqrt(3)\<close> is \<open>sqrt 3\<close>, \<open>Math.PI\<close> is \<open>pi\<close>): this decides what is
  built, how many, in which order and with which effect on the shadow generator. Then
  with the rounding of IEEE doubles, for the properties that depend on the exact values
  of the coordinates and heights. Loop bounds (\<open>size.x\<close>, \<open>size.z\<close>, \<open>length\<close>) are
  integers, possibly negative.
\<close>

subsection \<open>Values of the rendering library\<close>

record vector3 =
  vec_x :: real
  vec_y :: real
  vec_z :: real

record color3 =
  col_r :: real
  col_g :: real
  col_b :: real

text \<open>The coordinate modes of a texture, in the order of the constants of \<open>BABYLON.Texture\<close>.\<close>

datatype coordinates_mode =
  EXPLICIT_MODE | SPHERICAL_MODE | PLANAR_MODE | CUBIC_MODE | PROJECTION_MODE | SKYBOX_MODE

datatype texture_kind = Texture2D | CubeMap

record texture =
  tex_kind :: texture_kind
  tex_url :: string
  coordinatesMode :: coordinates_mode

record material =
  mat_name :: string
  backFaceCulling :: bool
  diffuseTexture :: "texture option"
  reflectionTexture :: "texture option"
  diffuseColor :: color3
  specularColor :: color3
  emissiveColor :: color3
  ambientColor :: color3

text \<open>The options object given to the mesh builder decides the shape.\<close>

datatype geometry =
  Cylinder real nat real
  | Box real
  | GroundFromHeightMap string real real nat real real

record mesh =
  mesh_name :: string
  shape :: geometry
  position :: vector3
  receiveShadows :: bool
  mesh_material :: "material option"

datatype canvas = Canvas nat

record camera =
  cam_name :: string
  alpha :: real
  beta :: real
  radius :: real
  target :: vector3
  attached_to :: "canvas option"

record light =
  light_name :: string
  direction :: vector3
  light_position :: vector3

text \<open>
  A shadow generator is bound to a light (its index in the scene's lights) and keeps the
  list of the meshes that cast shadows. A mesh is referred to by its index in the
  scene's meshes: two references are the same object exactly when the indices are equal.
\<close>

record shadow_generator =
  mapSize :: nat
  sg_light :: nat
  renderList :: "nat list"

record engine =
  eng_id :: nat
  eng_canvas :: canvas
  antialias :: bool
  preserveDrawingBuffer :: bool
  stencil :: bool

subsection \<open>The world the composable runs in\<close>

text \<open>
  Every call into the rendering library and into the host is recorded, in order, so that
  the order of construction and the reaction to events can be stated.
\<close>

datatype call =
  NewEngine
  | NewScene
  | NewArcRotateCamera
  | CameraSetTarget
  | CameraAttachControl
  | NewDirectionalLight
  | NewShadowGenerator nat
  | NewStandardMaterial string
  | NewTexture string
  | NewCubeTexture string
  | CreateGroundFromHeightMap
  | CreateBox
  | CreateCylinder
  | AddShadowCaster nat
  | RunRenderLoop
  | AddEventListener string
  | SceneRender nat
  | EngineResize nat

text \<open>
  The two closures the composable hands to the host, each with the number of the engine
  it was made for: \<open>function () { scene.render(); }\<close> on the scene of that engine, and
  \<open>function () { engine.resize(); }\<close> on that engine.
\<close>

datatype callback = RenderScene nat | ResizeEngine nat

datatype js_error = TypeError

text \<open>
  The scene (\<open>cameras\<close>, \<open>lights\<close>, \<open>meshes\<close>), the variable \<open>shadowGenerator\<close> of the
  closure of \<open>useGameView\<close> (\<open>None\<close> while it is undefined), the source of
  \<open>Math.random()\<close> with the number of values drawn so far, the render loops of every
  engine made so far (engine \<open>k\<close> is the \<open>k\<close>-th made), the listeners of the window, and
  the record of calls. The scene and the variable are those of the latest mount; the
  scenes of earlier mounts live on in the render loops of their engines.
\<close>

record world =
  cameras :: "camera list"
  lights :: "light list"
  meshes :: "mesh list"
  shadowGenerator :: "shadow_generator option"
  random_source :: "nat \<Rightarrow> real"
  random_calls :: nat
  activeRenderLoops :: "callback list list"
  window_listeners :: "(string \<times> callback) list"
  calls :: "call list"

definition record_call :: "call \<Rightarrow> world \<Rightarrow> world" where
  "record_call c w = w\<lparr>calls := calls w @ [c]\<rparr>"

definition Math_random :: "world \<Rightarrow> real \<times> world" where
  "Math_random w = (random_source w (random_calls w), w\<lparr>random_calls := Suc (random_calls w)\<rparr>)"

text \<open>
  Modelled from the spec: the mesh builders are code of the rendering library. A new
  mesh appears in the scene, at the origin, receiving no shadows, with no material.
\<close>

definition add_mesh :: "string \<Rightarrow> geometry \<Rightarrow> world \<Rightarrow> nat \<times> world" where
  "add_mesh n g w =
     (length (meshes w),
      w\<lparr>meshes := meshes w @
         [\<lparr>mesh_name = n, shape = g, position = \<lparr>vec_x = 0, vec_y = 0, vec_z = 0\<rparr>,
           receiveShadows = False, mesh_material = None\<rparr>]\<rparr>)"

definition update_mesh :: "nat \<Rightarrow> (mesh \<Rightarrow> mesh) \<Rightarrow> world \<Rightarrow> world" where
  "update_mesh obj f w = w\<lparr>meshes := (meshes w)[obj := f (meshes w ! obj)]\<rparr>"

definition MeshBuilder_CreateCylinder :: "string \<Rightarrow> real \<Rightarrow> nat \<Rightarrow> real \<Rightarrow> world \<Rightarrow> nat \<times> world" where
  "MeshBuilder_CreateCylinder n d t h w = add_mesh n (Cylinder d t h) (record_call CreateCylinder w)"

text \<open>
  Modelled from the spec: \<open>ShadowGenerator.addShadowCaster\<close> is code of the rendering
  library, not of the repository. Registering a mesh is one insertion into the set of
  casters: the mesh is put at the end of the render list unless it is there already.
\<close>

definition addShadowCaster :: "nat \<Rightarrow> shadow_generator \<Rightarrow> shadow_generator" where
  "addShadowCaster obj sg =
     (if obj \<in> set (renderList sg) then sg else sg\<lparr>renderList := renderList sg @ [obj]\<rparr>)"

subsection \<open>The field of hexagonal columns\<close>

text \<open>
  \<open>createGroundObject(x, z, height, scene)\<close>: a cylinder of diameter 1 with 6 sides, placed
  at \<open>(x, height / 2, z)\<close>, receiving shadows, then registered as a shadow caster. The
  registration reads the variable \<open>shadowGenerator\<close>: calling a method of \<open>undefined\<close>
  throws a TypeError, after the mesh has been made.
\<close>

definition createGroundObject :: "real \<Rightarrow> real \<Rightarrow> real \<Rightarrow> world \<Rightarrow> js_error + world" where
  "createGroundObject x z height w =
     (let (obj, w1) = MeshBuilder_CreateCylinder ''roof'' 1 6 height w;
          w2 = update_mesh obj (\<lambda>m. m\<lparr>position := (position m)\<lparr>vec_x := x\<rparr>\<rparr>) w1;
          w3 = update_mesh obj (\<lambda>m. m\<lparr>position := (position m)\<lparr>vec_z := z\<rparr>\<rparr>) w2;
          w4 = update_mesh obj (\<lambda>m. m\<lparr>position := (position m)\<lparr>vec_y := height / 2\<rparr>\<rparr>) w3;
          w5 = update_mesh obj (\<lambda>m. m\<lparr>receiveShadows := True\<rparr>) w4
      in case shadowGenerator w5 of
           None \<Rightarrow> Inl TypeError
         | Some sg \<Rightarrow>
             Inr (record_call (AddShadowCaster obj)
                    (w5\<lparr>shadowGenerator := Some (addShadowCaster obj sg)\<rparr>)))"

text \<open>
  \<open>createGroundLine(length, XPos, ZPos, scene)\<close>: the loop
  \<open>for (let i = 0; i < length; i++)\<close>, with the loop variable as first argument. Each
  round draws a height \<open>Math.random() / 2 + 0.5\<close>, makes a column and moves \<open>ZPos\<close> on by
  \<open>Math.sqrt(3) / 2\<close>. An exception of \<open>createGroundObject\<close> ends the loop.
\<close>

function createGroundLine_loop :: "int \<Rightarrow> int \<Rightarrow> real \<Rightarrow> real \<Rightarrow> world \<Rightarrow> js_error + world" where
  "createGroundLine_loop i len XPos ZPos w =
     (if i < len then
        (let (r, w1) = Math_random w
         in case createGroundObject XPos ZPos (r / 2 + 0.5) w1 of
              Inl e \<Rightarrow> Inl e
            | Inr w2 \<Rightarrow> createGroundLine_loop (i + 1) len XPos (ZPos + sqrt 3 / 2) w2)
      else Inr w)"
  by pat_completeness auto
termination
  by (relation "measure (\<lambda>(i, len, XPos, ZPos, w). nat (len - i))") auto

definition createGroundLine :: "int \<Rightarrow> real \<Rightarrow> real \<Rightarrow> world \<Rightarrow> js_error + world" where
  "createGroundLine len XPos ZPos w = createGroundLine_loop 0 len XPos ZPos w"

text \<open>
  \<open>createGround(size, XPos, ZPos, scene)\<close>: the loop \<open>for (let i = 0; i < size.x; i++)\<close>;
  the line of an even \<open>i\<close> starts at \<open>ZPos + 0.5\<close>, the line of an odd \<open>i\<close> at \<open>ZPos\<close>,
  both at \<open>XPos + i * 0.75\<close>.
\<close>

record ground_size =
  size_x :: int
  size_z :: int

function createGround_loop :: "int \<Rightarrow> ground_size \<Rightarrow> real \<Rightarrow> real \<Rightarrow> world \<Rightarrow> js_error + world" where
  "createGround_loop i sz XPos ZPos w =
     (if i < size_x sz then
        (case (if i mod 2 = 0
               then createGroundLine (size_z sz) (XPos + (of_int i * 0.75)) (ZPos + 0.5) w
               else createGroundLine (size_z sz) (XPos + (of_int i * 0.75)) ZPos w) of
           Inl e \<Rightarrow> Inl e
         | Inr w1 \<Rightarrow> createGround_loop (i + 1) sz XPos ZPos w1)
      else Inr w)"
  by pat_completeness auto
termination
  by (relation "measure (\<lambda>(i, sz, XPos, ZPos, w). nat (size_x sz - i))") auto

definition createGround :: "ground_size \<Rightarrow> real \<Rightarrow> real \<Rightarrow> world \<Rightarrow> js_error + world" where
  "createGround sz XPos ZPos w = createGround_loop 0 sz XPos ZPos w"

subsection \<open>The scene\<close>

text \<open>
  Modelled from the spec: the constructors are code of the rendering library, not of
  the repository. Each makes its object, and the scene holds it. The fields the
  composable does not set are given the defaults of the library, on which no property
  below depends: a directional light is positioned opposite to its
  direction, a standard material is white in diffuse and specular colour, black in
  emissive and ambient colour and culls back faces, a cube texture starts in cubic mode.
  A new scene is empty; a new engine is one more engine, and it runs no render loop.
\<close>

definition new_Engine :: "canvas \<Rightarrow> bool \<Rightarrow> bool \<Rightarrow> bool \<Rightarrow> world \<Rightarrow> engine \<times> world" where
  "new_Engine c aa pdb st w =
     (\<lparr>eng_id = length (activeRenderLoops w), eng_canvas = c, antialias = aa,
       preserveDrawingBuffer = pdb, stencil = st\<rparr>,
      record_call NewEngine (w\<lparr>activeRenderLoops := activeRenderLoops w @ [[]]\<rparr>))"

definition new_Scene :: "engine \<Rightarrow> world \<Rightarrow> world" where
  "new_Scene e w = record_call NewScene (w\<lparr>cameras := [], lights := [], meshes := []\<rparr>)"

definition new_ArcRotateCamera ::
  "string \<Rightarrow> real \<Rightarrow> real \<Rightarrow> real \<Rightarrow> vector3 \<Rightarrow> world \<Rightarrow> nat \<times> world" where
  "new_ArcRotateCamera n a b r t w =
     (length (cameras w),
      record_call NewArcRotateCamera
        (w\<lparr>cameras := cameras w @
           [\<lparr>cam_name = n, alpha = a, beta = b, radius = r, target = t, attached_to = None\<rparr>]\<rparr>))"

definition update_camera :: "nat \<Rightarrow> (camera \<Rightarrow> camera) \<Rightarrow> world \<Rightarrow> world" where
  "update_camera cam f w = w\<lparr>cameras := (cameras w)[cam := f (cameras w ! cam)]\<rparr>"

definition camera_setTarget :: "nat \<Rightarrow> vector3 \<Rightarrow> world \<Rightarrow> world" where
  "camera_setTarget cam t w = record_call CameraSetTarget (update_camera cam (\<lambda>c. c\<lparr>target := t\<rparr>) w)"

definition camera_attachControl :: "nat \<Rightarrow> canvas \<Rightarrow> bool \<Rightarrow> world \<Rightarrow> world" where
  "camera_attachControl cam c noPreventDefault w =
     record_call CameraAttachControl (update_camera cam (\<lambda>k. k\<lparr>attached_to := Some c\<rparr>) w)"

definition new_DirectionalLight :: "string \<Rightarrow> vector3 \<Rightarrow> world \<Rightarrow> nat \<times> world" where
  "new_DirectionalLight n d w =
     (length (lights w),
      record_call NewDirectionalLight
        (w\<lparr>lights := lights w @
           [\<lparr>light_name = n, direction = d,
             light_position = \<lparr>vec_x = - vec_x d, vec_y = - vec_y d, vec_z = - vec_z d\<rparr>\<rparr>]\<rparr>))"

definition update_light :: "nat \<Rightarrow> (light \<Rightarrow> light) \<Rightarrow> world \<Rightarrow> world" where
  "update_light l f w = w\<lparr>lights := (lights w)[l := f (lights w ! l)]\<rparr>"

definition new_ShadowGenerator :: "nat \<Rightarrow> nat \<Rightarrow> world \<Rightarrow> shadow_generator \<times> world" where
  "new_ShadowGenerator sz l w =
     (\<lparr>mapSize = sz, sg_light = l, renderList = []\<rparr>, record_call (NewShadowGenerator sz) w)"

definition new_StandardMaterial :: "string \<Rightarrow> world \<Rightarrow> material \<times> world" where
  "new_StandardMaterial n w =
     (\<lparr>mat_name = n, backFaceCulling = True, diffuseTexture = None, reflectionTexture = None,
       diffuseColor = \<lparr>col_r = 1, col_g = 1, col_b = 1\<rparr>,
       specularColor = \<lparr>col_r = 1, col_g = 1, col_b = 1\<rparr>,
       emissiveColor = \<lparr>col_r = 0, col_g = 0, col_b = 0\<rparr>,
       ambientColor = \<lparr>col_r = 0, col_g = 0, col_b = 0\<rparr>\<rparr>,
      record_call (NewStandardMaterial n) w)"

definition new_Texture :: "string \<Rightarrow> world \<Rightarrow> texture \<times> world" where
  "new_Texture url w =
     (\<lparr>tex_kind = Texture2D, tex_url = url, coordinatesMode = EXPLICIT_MODE\<rparr>,
      record_call (NewTexture url) w)"

definition new_CubeTexture :: "string \<Rightarrow> world \<Rightarrow> texture \<times> world" where
  "new_CubeTexture url w =
     (\<lparr>tex_kind = CubeMap, tex_url = url, coordinatesMode = CUBIC_MODE\<rparr>,
      record_call (NewCubeTexture url) w)"

definition MeshBuilder_CreateGroundFromHeightMap ::
  "string \<Rightarrow> string \<Rightarrow> real \<Rightarrow> real \<Rightarrow> nat \<Rightarrow> real \<Rightarrow> real \<Rightarrow> world \<Rightarrow> nat \<times> world" where
  "MeshBuilder_CreateGroundFromHeightMap n url wd ht sub maxH minH w =
     add_mesh n (GroundFromHeightMap url wd ht sub maxH minH) (record_call CreateGroundFromHeightMap w)"

definition MeshBuilder_CreateBox :: "string \<Rightarrow> real \<Rightarrow> world \<Rightarrow> nat \<times> world" where
  "MeshBuilder_CreateBox n sz w = add_mesh n (Box sz) (record_call CreateBox w)"

text \<open>\<open>createRealGround(scene)\<close>: the ground of the height map, with its material.\<close>

definition createRealGround :: "world \<Rightarrow> world" where
  "createRealGround w =
     (let (groundMaterial, w1) = new_StandardMaterial ''ground'' w;
          (tex, w2) = new_Texture ''/src/assets/map/bit_map.png'' w1;
          groundMaterial = groundMaterial\<lparr>diffuseTexture := Some tex\<rparr>;
          groundMaterial = groundMaterial\<lparr>specularColor := \<lparr>col_r = 0.1, col_g = 0.1, col_b = 0.1\<rparr>\<rparr>;
          groundMaterial = groundMaterial\<lparr>emissiveColor := \<lparr>col_r = 1, col_g = 1, col_b = 1\<rparr>\<rparr>;
          groundMaterial = groundMaterial\<lparr>ambientColor := \<lparr>col_r = 0.23, col_g = 0.98, col_b = 0.53\<rparr>\<rparr>;
          (ground, w3) = MeshBuilder_CreateGroundFromHeightMap ''12d3''
                           ''/src/assets/map/height_map.png'' 20 20 250 10 2 w2;
          w4 = update_mesh ground (\<lambda>m. m\<lparr>mesh_material := Some groundMaterial\<rparr>) w3
      in update_mesh ground (\<lambda>m. m\<lparr>receiveShadows := True\<rparr>) w4)"

text \<open>\<open>createSkyBox(scene)\<close>: the box around the scene, with its material.\<close>

definition createSkyBox :: "world \<Rightarrow> world" where
  "createSkyBox w =
     (let (skybox, w1) = MeshBuilder_CreateBox ''skyBox'' 1000.0 w;
          (skyboxMaterial, w2) = new_StandardMaterial ''skyBox'' w1;
          skyboxMaterial = skyboxMaterial\<lparr>backFaceCulling := False\<rparr>;
          (tex, w3) = new_CubeTexture ''src/assets/map/skybox/skybox'' w2;
          skyboxMaterial = skyboxMaterial\<lparr>reflectionTexture := Some tex\<rparr>;
          skyboxMaterial = skyboxMaterial\<lparr>reflectionTexture :=
             map_option (\<lambda>t. t\<lparr>coordinatesMode := SKYBOX_MODE\<rparr>) (reflectionTexture skyboxMaterial)\<rparr>;
          skyboxMaterial = skyboxMaterial\<lparr>diffuseColor := \<lparr>col_r = 0, col_g = 0, col_b = 0\<rparr>\<rparr>;
          skyboxMaterial = skyboxMaterial\<lparr>specularColor := \<lparr>col_r = 0, col_g = 0, col_b = 0\<rparr>\<rparr>
      in update_mesh skybox (\<lambda>m. m\<lparr>mesh_material := Some skyboxMaterial\<rparr>) w3)"

text \<open>
  \<open>createScene(engine, canvas)\<close>: scene, camera, light, shadow generator (stored in the
  variable \<open>shadowGenerator\<close>), ground, sky box. The result is the world holding the scene.
\<close>

definition createScene :: "engine \<Rightarrow> canvas \<Rightarrow> world \<Rightarrow> world" where
  "createScene e c w =
     (let w1 = new_Scene e w;
          (cam, w2) = new_ArcRotateCamera ''camera'' (- pi / 2) (pi / 2.5) 10
                        \<lparr>vec_x = 0, vec_y = 0, vec_z = 0\<rparr> w1;
          w3 = camera_setTarget cam \<lparr>vec_x = 0, vec_y = 0, vec_z = 0\<rparr> w2;
          w4 = camera_attachControl cam c False w3;
          (light, w5) = new_DirectionalLight ''dir01'' \<lparr>vec_x = 0, vec_y = - 0.1, vec_z = 0.1\<rparr> w4;
          w6 = update_light light (\<lambda>l. l\<lparr>light_position := \<lparr>vec_x = 10, vec_y = 10, vec_z = 0\<rparr>\<rparr>) w5;
          (sg, w7) = new_ShadowGenerator 1024 light w6;
          w8 = w7\<lparr>shadowGenerator := Some sg\<rparr>;
          w9 = createRealGround w8
      in createSkyBox w9)"

subsection \<open>Start, render loop and resize\<close>

definition Engine_runRenderLoop :: "engine \<Rightarrow> callback \<Rightarrow> world \<Rightarrow> world" where
  "Engine_runRenderLoop e f w =
     record_call RunRenderLoop
       (w\<lparr>activeRenderLoops :=
            (activeRenderLoops w)[eng_id e := activeRenderLoops w ! eng_id e @ [f]]\<rparr>)"

definition window_addEventListener :: "string \<Rightarrow> callback \<Rightarrow> world \<Rightarrow> world" where
  "window_addEventListener t f w =
     record_call (AddEventListener t) (w\<lparr>window_listeners := window_listeners w @ [(t, f)]\<rparr>)"

text \<open>\<open>Init(canvas)\<close>: engine, scene, render loop, resize listener.\<close>

definition Init :: "canvas \<Rightarrow> world \<Rightarrow> world" where
  "Init c w =
     (let (e, w1) = new_Engine c True True True w;
          w2 = createScene e c w1;
          w3 = Engine_runRenderLoop e (RenderScene (eng_id e)) w2
      in window_addEventListener ''resize'' (ResizeEngine (eng_id e)) w3)"

text \<open>
  Modelled from the spec: the host is a single queue of events and runs the closures
  itself, each to its end before the next: at an animation frame every engine calls its
  render loops, at an event of the window each listener of that type is called, in the
  order of registration. Nothing in the composable removes a listener or stops a render
  loop. A mount (of this or of another instance of the component) runs \<open>Init\<close>.
\<close>

datatype host_event = AnimationFrame | WindowEvent string | Mount canvas

fun call_of :: "callback \<Rightarrow> call" where
  "call_of (RenderScene k) = SceneRender k"
| "call_of (ResizeEngine k) = EngineResize k"

definition invoke :: "callback \<Rightarrow> world \<Rightarrow> world" where
  "invoke f w = record_call (call_of f) w"

definition listeners_of :: "string \<Rightarrow> world \<Rightarrow> callback list" where
  "listeners_of t w = map snd (filter (\<lambda>l. fst l = t) (window_listeners w))"

fun dispatch :: "host_event \<Rightarrow> world \<Rightarrow> world" where
  "dispatch AnimationFrame w = fold invoke (concat (activeRenderLoops w)) w"
| "dispatch (WindowEvent t) w = fold invoke (listeners_of t w) w"
| "dispatch (Mount c) w = Init c w"

text \<open>The calls that one event adds to the record.\<close>

definition reaction :: "host_event \<Rightarrow> world \<Rightarrow> call list" where
  "reaction ev w = drop (length (calls w)) (calls (dispatch ev w))"

text \<open>The events that run \<open>Init\<close>.\<close>

fun is_mount :: "host_event \<Rightarrow> bool" where
  "is_mount (Mount c) = True"
| "is_mount ev = False"

text \<open>Every closure the host holds was made for an engine that exists.\<close>

fun engine_of :: "callback \<Rightarrow> nat" where
  "engine_of (RenderScene k) = k"
| "engine_of (ResizeEngine k) = k"

definition closures_known :: "world \<Rightarrow> bool" where
  "closures_known w =
     (list_all (\<lambda>f. engine_of f < length (activeRenderLoops w)) (concat (activeRenderLoops w))
      \<and> list_all (\<lambda>l. engine_of (snd l) < length (activeRenderLoops w)) (window_listeners w))"

subsection \<open>The layout of the specification\<close>

text \<open>
  The layout as the specification words it: \<open>generateLayout(rowCount, columnsPerRow,
  originX, originZ)\<close> rejects a negative count, and otherwise lists, row by row, the points
  \<open>(originX + i * 0.75, z\<^sub>i + j * \<surd>3/2)\<close> with \<open>z\<^sub>i = originZ + 0.5\<close> for an even row \<open>i\<close> and
  \<open>z\<^sub>i = originZ\<close> for an odd one. It is compared below with the points at which
  \<open>createGround\<close> places its columns.
\<close>

datatype layout_error = InvalidArgument

definition generateLayout :: "int \<Rightarrow> int \<Rightarrow> real \<Rightarrow> real \<Rightarrow> layout_error + (real \<times> real) list" where
  "generateLayout rowCount columnsPerRow originX originZ =
     (if rowCount < 0 \<or> columnsPerRow < 0 then Inl InvalidArgument
      else Inr (concat (map (\<lambda>i. map (\<lambda>j. (originX + real i * 0.75,
                                            (if even i then originZ + 0.5 else originZ)
                                              + real j * (sqrt 3 / 2)))
                                  [0..<nat columnsPerRow])
                        [0..<nat rowCount])))"

subsection \<open>Observations\<close>

text \<open>The point of the plane at which a mesh stands, and the meshes a run has added.\<close>

definition mesh_point :: "mesh \<Rightarrow> real \<times> real" where
  "mesh_point m = (vec_x (position m), vec_z (position m))"

definition new_meshes :: "world \<Rightarrow> world \<Rightarrow> mesh list" where
  "new_meshes w w' = drop (length (meshes w)) (meshes w')"

text \<open>Every shadow caster is a mesh of the scene.\<close>

definition casters_in_scene :: "world \<Rightarrow> bool" where
  "casters_in_scene w =
     (case shadowGenerator w of
        None \<Rightarrow> True
      | Some sg \<Rightarrow> list_all (\<lambda>obj. obj < length (meshes w)) (renderList sg))"

text \<open>
  The world before the component is mounted: no scene, the variable \<open>shadowGenerator\<close>
  undefined, nothing registered, nothing called. \<open>fixed_random\<close> is a source of
  \<open>Math.random()\<close> for concrete runs.
\<close>

definition initial_world :: "(nat \<Rightarrow> real) \<Rightarrow> world" where
  "initial_world rnd =
     \<lparr>cameras = [], lights = [], meshes = [], shadowGenerator = None,
      random_source = rnd, random_calls = 0, activeRenderLoops = [],
      window_listeners = [], calls = []\<rparr>"

definition fixed_random :: "nat \<Rightarrow> real" where
  "fixed_random n = 1 / 4"

text \<open>The world once the component is mounted on a canvas, for concrete runs.\<close>

definition mounted_world :: world where
  "mounted_world = Init (Canvas 0) (initial_world fixed_random)"

text \<open>The meshes that \<open>createGroundLine\<close> and \<open>createGround\<close> leave, written out.\<close>

definition column :: "real \<Rightarrow> real \<Rightarrow> real \<Rightarrow> mesh" where
  "column x z h =
     \<lparr>mesh_name = ''roof'', shape = Cylinder 1 6 h,
      position = \<lparr>vec_x = x, vec_y = h / 2, vec_z = z\<rparr>,
      receiveShadows = True, mesh_material = None\<rparr>"

definition line_columns :: "(nat \<Rightarrow> real) \<Rightarrow> nat \<Rightarrow> real \<Rightarrow> real \<Rightarrow> nat \<Rightarrow> mesh list" where
  "line_columns rnd k X Z n =
     map (\<lambda>j. column X (Z + real j * (sqrt 3 / 2)) (rnd (k + j) / 2 + 0.5)) [0..<n]"

definition field_columns ::
  "(nat \<Rightarrow> real) \<Rightarrow> nat \<Rightarrow> real \<Rightarrow> real \<Rightarrow> nat \<Rightarrow> nat \<Rightarrow> nat \<Rightarrow> mesh list" where
  "field_columns rnd k X Z c r n =
     concat (map (\<lambda>q. line_columns rnd (k + q * c) (X + real (r + q) * 0.75)
                          (if even (r + q) then Z + 0.5 else Z) c) [0..<n])"

definition line_calls :: "nat \<Rightarrow> nat \<Rightarrow> call list" where
  "line_calls l n = concat (map (\<lambda>j. [CreateCylinder, AddShadowCaster j]) [l..<l + n])"

text \<open>The meshes a run of a builder has added; none when it threw.\<close>

definition added_by :: "world \<Rightarrow> js_error + world \<Rightarrow> mesh list" where
  "added_by w r = (case r of Inl e \<Rightarrow> [] | Inr w' \<Rightarrow> new_meshes w w')"

text \<open>
  The closures of engine \<open>e\<close> are registered once each, where they belong: its render
  loop with an engine, its resize listener with the window under \<open>resize\<close>.
\<close>

definition hooked :: "nat \<Rightarrow> world \<Rightarrow> bool" where
  "hooked e w =
     (e < length (activeRenderLoops w) \<and> closures_known w
      \<and> count_list (concat (activeRenderLoops w)) (RenderScene e) = 1
      \<and> count_list (concat (activeRenderLoops w)) (ResizeEngine e) = 0
      \<and> (\<forall>t. count_list (listeners_of t w) (ResizeEngine e) = (if t = ''resize'' then 1 else 0))
      \<and> (\<forall>t. count_list (listeners_of t w) (RenderScene e) = 0))"

subsection \<open>The arithmetic of doubles\<close>

text \<open>
  Modelled from the spec: the numbers of the code are floats, in JavaScript the doubles
  of IEEE 754 (53 significant bits, exponents from \<open>-1022\<close> to \<open>1023\<close>, subnormal
  numbers below). Every arithmetic operation gives the double nearest to the exact
  result, the one with an even significand when two are equally near.

  \<open>round_even y\<close> is the integer nearest to \<open>y\<close>, the even one at a tie;
  \<open>exponent x\<close> is the binary exponent of \<open>x\<close>, not below that of the smallest normal
  double; \<open>ulp x\<close> is the distance between the doubles around \<open>x\<close>; \<open>double x\<close> is the
  double nearest to \<open>x\<close>. A double is a real number here. Results beyond the largest
  double (\<open>Infinity\<close> in the code) are not modelled: the builders below add to
  \<open>XPos\<close> and \<open>ZPos\<close> only amounts that are far below half an \<open>ulp\<close> of the largest
  double, so that no sum of theirs leaves the range when \<open>XPos\<close> and \<open>ZPos\<close> are doubles.
\<close>

definition round_even :: "real \<Rightarrow> int" where
  "round_even y =
     (let f = \<lfloor>y\<rfloor>; d = y - of_int f
      in if d < 1 / 2 then f else if 1 / 2 < d then f + 1 else if even f then f else f + 1)"

definition exponent :: "real \<Rightarrow> int" where
  "exponent x = max \<lfloor>log 2 \<bar>x\<bar>\<rfloor> (- 1022)"

definition ulp :: "real \<Rightarrow> real" where
  "ulp x = 2 powi (exponent x - 52)"

definition double :: "real \<Rightarrow> real" where
  "double x = (if x = 0 then 0 else of_int (round_even (x / ulp x)) * ulp x)"

text \<open>\<open>Math.sqrt(x)\<close> is the double nearest to the square root.\<close>

definition Math_sqrt :: "real \<Rightarrow> real" where
  "Math_sqrt x = double (sqrt x)"

text \<open>
  A bound for the error of one rounding, which is at most half an \<open>ulp\<close>: one part in
  \<open>2\<^sup>5\<^sup>3\<close> of the exact result, or \<open>2\<^sup>-\<^sup>1\<^sup>0\<^sup>7\<^sup>5\<close> among the subnormal numbers.
\<close>

definition rounding_error :: "real \<Rightarrow> real" where
  "rounding_error t = max (\<bar>t\<bar> / 2 ^ 53) (2 powi (- 1075))"

subsection \<open>The field of hexagonal columns, in doubles\<close>

text \<open>
  The builders once more, with every operation on numbers rounded to a double:
  \<open>height / 2\<close>, \<open>Math.random() / 2 + 0.5\<close>, \<open>ZPos += Math.sqrt(3) / 2\<close>,
  \<open>XPos + (i * 0.75)\<close> and \<open>ZPos + 0.5\<close>. The constants \<open>0.5\<close>, \<open>0.75\<close>, \<open>1\<close>, \<open>2\<close>, \<open>3\<close>
  and \<open>6\<close> are doubles, and so is the loop variable up to \<open>2\<^sup>5\<^sup>3\<close>. Control flow, calls
  and counts are those of the builders above.
\<close>

definition createGroundObject_double :: "real \<Rightarrow> real \<Rightarrow> real \<Rightarrow> world \<Rightarrow> js_error + world" where
  "createGroundObject_double x z height w =
     (let (obj, w1) = MeshBuilder_CreateCylinder ''roof'' 1 6 height w;
          w2 = update_mesh obj (\<lambda>m. m\<lparr>position := (position m)\<lparr>vec_x := x\<rparr>\<rparr>) w1;
          w3 = update_mesh obj (\<lambda>m. m\<lparr>position := (position m)\<lparr>vec_z := z\<rparr>\<rparr>) w2;
          w4 = update_mesh obj (\<lambda>m. m\<lparr>position := (position m)\<lparr>vec_y := double (height / 2)\<rparr>\<rparr>) w3;
          w5 = update_mesh obj (\<lambda>m. m\<lparr>receiveShadows := True\<rparr>) w4
      in case shadowGenerator w5 of
           None \<Rightarrow> Inl TypeError
         | Some sg \<Rightarrow>
             Inr (record_call (AddShadowCaster obj)
                    (w5\<lparr>shadowGenerator := Some (addShadowCaster obj sg)\<rparr>)))"

function createGroundLine_double_loop ::
  "int \<Rightarrow> int \<Rightarrow> real \<Rightarrow> real \<Rightarrow> world \<Rightarrow> js_error + world" where
  "createGroundLine_double_loop i len XPos ZPos w =
     (if i < len then
        (let (r, w1) = Math_random w
         in case createGroundObject_double XPos ZPos (double (double (r / 2) + 0.5)) w1 of
              Inl e \<Rightarrow> Inl e
            | Inr w2 \<Rightarrow>
                createGroundLine_double_loop (i + 1) len XPos
                  (double (ZPos + double (Math_sqrt 3 / 2))) w2)
      else Inr w)"
  by pat_completeness auto
termination
  by (relation "measure (\<lambda>(i, len, XPos, ZPos, w). nat (len - i))") auto

definition createGroundLine_double :: "int \<Rightarrow> real \<Rightarrow> real \<Rightarrow> world \<Rightarrow> js_error + world" where
  "createGroundLine_double len XPos ZPos w = createGroundLine_double_loop 0 len XPos ZPos w"

function createGround_double_loop ::
  "int \<Rightarrow> ground_size \<Rightarrow> real \<Rightarrow> real \<Rightarrow> world \<Rightarrow> js_error + world" where
  "createGround_double_loop i sz XPos ZPos w =
     (if i < size_x sz then
        (case (if i mod 2 = 0
               then createGroundLine_double (size_z sz)
                      (double (XPos + double (of_int i * 0.75))) (double (ZPos + 0.5)) w
               else createGroundLine_double (size_z sz)
                      (double (XPos + double (of_int i * 0.75))) ZPos w) of
           Inl e \<Rightarrow> Inl e
         | Inr w1 \<Rightarrow> createGround_double_loop (i + 1) sz XPos ZPos w1)
      else Inr w)"
  by pat_completeness auto
termination
  by (relation "measure (\<lambda>(i, sz, XPos, ZPos, w). nat (size_x sz - i))") auto

definition createGround_double :: "ground_size \<Rightarrow> real \<Rightarrow> real \<Rightarrow> world \<Rightarrow> js_error + world" where
  "createGround_double sz XPos ZPos w = createGround_double_loop 0 sz XPos ZPos w"

text \<open>The largest double below 1, as what \<open>Math.random()\<close> returns at every call.\<close>

definition largest_draw :: "nat \<Rightarrow> real" where
  "largest_draw n = 1 - 1 / 2 ^ 53"

text \<open>The meshes that the builders in doubles leave, written out.\<close>

definition column_double :: "real \<Rightarrow> real \<Rightarrow> real \<Rightarrow> mesh" where
  "column_double x z h =
     \<lparr>mesh_name = ''roof'', shape = Cylinder 1 6 h,
      position = \<lparr>vec_x = x, vec_y = double (h / 2), vec_z = z\<rparr>,
      receiveShadows = True, mesh_material = None\<rparr>"

definition next_z :: "real \<Rightarrow> real" where
  "next_z z = double (z + double (Math_sqrt 3 / 2))"

definition line_columns_double :: "(nat \<Rightarrow> real) \<Rightarrow> nat \<Rightarrow> real \<Rightarrow> real \<Rightarrow> nat \<Rightarrow> mesh list" where
  "line_columns_double rnd k X Z n =
     map (\<lambda>j. column_double X ((next_z ^^ j) Z) (double (double (rnd (k + j) / 2) + 0.5))) [0..<n]"

definition field_columns_double ::
  "(nat \<Rightarrow> real) \<Rightarrow> nat \<Rightarrow> real \<Rightarrow> real \<Rightarrow> nat \<Rightarrow> nat \<Rightarrow> nat \<Rightarrow> mesh list" where
  "field_columns_double rnd k X Z c r n =
     concat (map (\<lambda>q. line_columns_double rnd (k + q * c)
                          (double (X + double (real (r + q) * 0.75)))
                          (if even (r + q) then double (Z + 0.5) else Z) c) [0..<n])"

section \<open>Properties\<close>

subsection \<open>One column, one line, the field\<close>

lemma createGroundObject_Some:
  assumes "shadowGenerator w = Some sg"
  shows "createGroundObject x z h w =
     Inr (w\<lparr>meshes := meshes w @ [column x z h],
            shadowGenerator := Some (addShadowCaster (length (meshes w)) sg),
            calls := calls w @ [CreateCylinder, AddShadowCaster (length (meshes w))]\<rparr>)"
  using assms
  by (simp add: createGroundObject_def MeshBuilder_CreateCylinder_def add_mesh_def
      update_mesh_def record_call_def column_def)

lemma createGroundObject_None:
  assumes "shadowGenerator w = None"
  shows "createGroundObject x z h w = Inl TypeError"
  using assms
  by (simp add: createGroundObject_def MeshBuilder_CreateCylinder_def add_mesh_def
      update_mesh_def record_call_def)

lemma line_columns_Suc:
  "line_columns rnd k X Z (Suc n) =
     column X Z (rnd k / 2 + 0.5) # line_columns rnd (Suc k) X (Z + sqrt 3 / 2) n"
proof -
  have "[0..<Suc n] = 0 # map Suc [0..<n]"
    by (simp add: upt_conv_Cons map_Suc_upt del: upt_Suc)
  then show ?thesis
    by (simp add: line_columns_def comp_def algebra_simps add_divide_distrib del: upt_Suc)
qed

lemma line_calls_Suc:
  "line_calls l (Suc n) = [CreateCylinder, AddShadowCaster l] @ line_calls (Suc l) n"
  by (simp add: line_calls_def upt_conv_Cons del: upt_Suc)

declare createGroundLine_loop.simps [simp del]

lemma createGroundLine_loop_Some:
  assumes "shadowGenerator w = Some sg" and "n = nat (len - i)"
  shows "createGroundLine_loop i len X Z w =
     Inr (w\<lparr>meshes := meshes w @ line_columns (random_source w) (random_calls w) X Z n,
            shadowGenerator :=
              Some (fold addShadowCaster [length (meshes w)..<length (meshes w) + n] sg),
            random_calls := random_calls w + n,
            calls := calls w @ line_calls (length (meshes w)) n\<rparr>)"
  using assms
proof (induction n arbitrary: i Z w sg)
  case 0
  then have "\<not> i < len" by simp
  then show ?case
    using 0 by (subst createGroundLine_loop.simps) (simp add: line_columns_def line_calls_def)
next
  case (Suc n)
  then have lt: "i < len" and n: "n = nat (len - (i + 1))" by simp_all
  let ?w1 = "w\<lparr>random_calls := Suc (random_calls w)\<rparr>"
  let ?h = "random_source w (random_calls w) / 2 + 0.5"
  let ?w2 = "?w1\<lparr>meshes := meshes ?w1 @ [column X Z ?h],
            shadowGenerator := Some (addShadowCaster (length (meshes ?w1)) sg),
            calls := calls ?w1 @ [CreateCylinder, AddShadowCaster (length (meshes ?w1))]\<rparr>"
  have sg1: "shadowGenerator ?w1 = Some sg" using Suc.prems by simp
  have obj: "createGroundObject X Z ?h ?w1 = Inr ?w2"
    by (rule createGroundObject_Some [OF sg1])
  have sg2: "shadowGenerator ?w2 = Some (addShadowCaster (length (meshes w)) sg)" by simp
  have step: "createGroundLine_loop i len X Z w =
      createGroundLine_loop (i + 1) len X (Z + sqrt 3 / 2) ?w2"
    using lt obj by (subst createGroundLine_loop.simps) (simp add: Math_random_def)
  show ?case
    unfolding step Suc.IH [OF sg2 n]
    by (simp add: line_columns_Suc line_calls_Suc upt_conv_Cons del: upt_Suc)
qed

lemma length_line_columns: "length (line_columns rnd k X Z n) = n"
  by (simp add: line_columns_def)

lemma upt_split_add: "[l..<l + (a + b)] = [l..<l + a] @ [l + a..<l + a + b]"
  using upt_add_eq_append [of l "l + a" b] by (simp add: add.assoc)

lemma line_calls_add: "line_calls l (a + b) = line_calls l a @ line_calls (l + a) b"
  unfolding line_calls_def upt_split_add by simp

lemma fold_addShadowCaster_add:
  "fold addShadowCaster [l..<l + (a + b)] sg =
     fold addShadowCaster [l + a..<l + a + b] (fold addShadowCaster [l..<l + a] sg)"
  unfolding upt_split_add by simp

lemma field_columns_Suc:
  "field_columns rnd k X Z c r (Suc n) =
     line_columns rnd k (X + real r * 0.75) (if even r then Z + 0.5 else Z) c
     @ field_columns rnd (k + c) X Z c (Suc r) n"
proof -
  have up: "[0..<Suc n] = 0 # map Suc [0..<n]"
    by (simp add: upt_conv_Cons map_Suc_upt del: upt_Suc)
  have first: "line_columns rnd (k + 0 * c) (X + real (r + 0) * 0.75)
                (if even (r + 0) then Z + 0.5 else Z) c =
             line_columns rnd k (X + real r * 0.75) (if even r then Z + 0.5 else Z) c"
    by simp
  have rest: "\<And>q. line_columns rnd (k + Suc q * c) (X + real (r + Suc q) * 0.75)
                (if even (r + Suc q) then Z + 0.5 else Z) c =
             line_columns rnd (k + c + q * c) (X + real (Suc r + q) * 0.75)
                (if even (Suc r + q) then Z + 0.5 else Z) c"
    by (simp add: add.assoc)
  show ?thesis
    by (simp only: field_columns_def up list.map concat.simps map_map comp_def first rest)
qed

declare createGround_loop.simps [simp del]

lemma createGround_loop_Some:
  assumes "shadowGenerator w = Some sg" and "0 \<le> i" and "n = nat (size_x sz - i)"
  shows "createGround_loop i sz X Z w =
     Inr (w\<lparr>meshes := meshes w @
              field_columns (random_source w) (random_calls w) X Z (nat (size_z sz)) (nat i) n,
            shadowGenerator :=
              Some (fold addShadowCaster
                     [length (meshes w)..<length (meshes w) + n * nat (size_z sz)] sg),
            random_calls := random_calls w + n * nat (size_z sz),
            calls := calls w @ line_calls (length (meshes w)) (n * nat (size_z sz))\<rparr>)"
  using assms
proof (induction n arbitrary: i w sg)
  case 0
  then have "\<not> i < size_x sz" by simp
  then show ?case
    using 0 by (subst createGround_loop.simps) (simp add: field_columns_def line_calls_def)
next
  case (Suc n)
  then have lt: "i < size_x sz" and n: "n = nat (size_x sz - (i + 1))" and i1: "0 \<le> i + 1"
    by simp_all
  let ?c = "nat (size_z sz)"
  let ?Z0 = "if even (nat i) then Z + 0.5 else Z"
  let ?w1 = "w\<lparr>meshes := meshes w @
                 line_columns (random_source w) (random_calls w) (X + real (nat i) * 0.75) ?Z0 ?c,
               shadowGenerator :=
                 Some (fold addShadowCaster [length (meshes w)..<length (meshes w) + ?c] sg),
               random_calls := random_calls w + ?c,
               calls := calls w @ line_calls (length (meshes w)) ?c\<rparr>"
  have c: "?c = nat (size_z sz - 0)" by simp
  have par: "(i mod 2 = 0) = even (nat i)"
    using even_nat_iff [OF Suc.prems(2)] by (simp only: even_iff_mod_2_eq_zero)
  have x: "(of_int i :: real) = real (nat i)"
    using Suc.prems(2) by simp
  have line: "(if i mod 2 = 0
               then createGroundLine (size_z sz) (X + (of_int i * 0.75)) (Z + 0.5) w
               else createGroundLine (size_z sz) (X + (of_int i * 0.75)) Z w) = Inr ?w1"
    unfolding par x createGroundLine_def
    using createGroundLine_loop_Some [OF Suc.prems(1) c] by simp
  have sg1: "shadowGenerator ?w1 =
      Some (fold addShadowCaster [length (meshes w)..<length (meshes w) + ?c] sg)"
    by simp
  have step: "createGround_loop i sz X Z w = createGround_loop (i + 1) sz X Z ?w1"
    using lt by (subst createGround_loop.simps) (simp only: line if_True sum.case)
  have suc: "nat (i + 1) = Suc (nat i)"
    using Suc.prems(2) by simp
  show ?case
    unfolding step Suc.IH [OF sg1 i1 n] suc
    by (simp add: field_columns_Suc length_line_columns line_calls_add
        fold_addShadowCaster_add)
qed

lemma fold_addShadowCaster_fresh:
  assumes "\<forall>obj\<in>set (renderList sg). obj < l"
  shows "fold addShadowCaster [l..<l + n] sg = sg\<lparr>renderList := renderList sg @ [l..<l + n]\<rparr>"
proof (induction n)
  case 0
  show ?case by simp
next
  case (Suc n)
  have "l + n \<notin> set (renderList sg @ [l..<l + n])"
    using assms by auto
  then show ?case
    using Suc.IH by (simp add: addShadowCaster_def)
qed

lemma createGroundLine_loop_None:
  assumes "shadowGenerator w = None"
  shows "createGroundLine_loop i len X Z w = (if i < len then Inl TypeError else Inr w)"
proof -
  have "createGroundObject X Z h (w\<lparr>random_calls := Suc (random_calls w)\<rparr>) = Inl TypeError" for h
    using assms by (intro createGroundObject_None) simp
  then show ?thesis
    by (subst createGroundLine_loop.simps) (simp add: Math_random_def)
qed

lemma createGround_loop_None:
  assumes "shadowGenerator w = None" and "n = nat (size_x sz - i)"
  shows "createGround_loop i sz X Z w =
     (if i < size_x sz \<and> 0 < size_z sz then Inl TypeError else Inr w)"
  using assms(2)
proof (induction n arbitrary: i)
  case 0
  then show ?case by (subst createGround_loop.simps) simp
next
  case (Suc n)
  then have lt: "i < size_x sz" and n: "n = nat (size_x sz - (i + 1))" by simp_all
  have line: "createGroundLine len X' Z' w = (if 0 < len then Inl TypeError else Inr w)" for len X' Z'
    unfolding createGroundLine_def by (rule createGroundLine_loop_None [OF assms(1)])
  show ?case
  proof (cases "0 < size_z sz")
    case True
    then show ?thesis
      using lt by (subst createGround_loop.simps) (simp add: line)
  next
    case False
    then have "createGround_loop i sz X Z w = createGround_loop (i + 1) sz X Z w"
      using lt by (subst createGround_loop.simps) (simp add: line)
    then show ?thesis
      using False Suc.IH [OF n] by simp
  qed
qed

lemma field_columns_empty: "n = 0 \<or> c = 0 \<Longrightarrow> field_columns rnd k X Z c r n = []"
  by (auto simp: field_columns_def line_columns_def)

lemma length_field_columns: "length (field_columns rnd k X Z c r n) = n * c"
  by (induction n arbitrary: k r) (simp_all add: field_columns_Suc length_line_columns field_columns_def)

lemma createGround_Some:
  assumes "shadowGenerator w = Some sg"
  shows "createGround sz X Z w =
     Inr (w\<lparr>meshes := meshes w @
              field_columns (random_source w) (random_calls w) X Z (nat (size_z sz)) 0 (nat (size_x sz)),
            shadowGenerator :=
              Some (fold addShadowCaster
                     [length (meshes w)..<length (meshes w) + nat (size_x sz) * nat (size_z sz)] sg),
            random_calls := random_calls w + nat (size_x sz) * nat (size_z sz),
            calls := calls w @ line_calls (length (meshes w)) (nat (size_x sz) * nat (size_z sz))\<rparr>)"
  unfolding createGround_def
  using createGround_loop_Some [OF assms, of 0 "nat (size_x sz)" sz X Z] by simp

lemma createGround_None:
  assumes "shadowGenerator w = None"
  shows "createGround sz X Z w =
     (if 0 < size_x sz \<and> 0 < size_z sz then Inl TypeError else Inr w)"
  unfolding createGround_def
  using createGround_loop_None [OF assms, of "nat (size_x sz)" sz 0 X Z] by simp

lemma createGround_meshes:
  assumes "createGround sz X Z w = Inr w'"
  shows "meshes w' = meshes w @
     field_columns (random_source w) (random_calls w) X Z (nat (size_z sz)) 0 (nat (size_x sz))"
proof (cases "shadowGenerator w")
  case None
  with assms have "w' = w" and "\<not> (0 < size_x sz \<and> 0 < size_z sz)"
    by (auto simp: createGround_None split: if_splits)
  then have "w' = w" and "nat (size_x sz) = 0 \<or> nat (size_z sz) = 0"
    by auto
  then show ?thesis
    using field_columns_empty by simp
next
  case (Some sg)
  with assms show ?thesis
    by (auto simp: createGround_Some)
qed

lemma field_points:
  "map mesh_point (field_columns rnd k X Z c 0 r) =
     concat (map (\<lambda>i. map (\<lambda>j. (X + real i * 0.75,
                                  (if even i then Z + 0.5 else Z) + real j * (sqrt 3 / 2)))
                        [0..<c])
              [0..<r])"
  by (simp add: field_columns_def line_columns_def map_concat comp_def mesh_point_def column_def)

lemma concat_rows:
  "length (concat (map (\<lambda>i. map (f i) [0..<c]) [0..<r])) = r * c \<and>
   (\<forall>i j. i < r \<and> j < c \<longrightarrow> concat (map (\<lambda>i. map (f i) [0..<c]) [0..<r]) ! (i * c + j) = f i j)"
proof (induction r)
  case 0
  show ?case by simp
next
  case (Suc r)
  let ?rows = "concat (map (\<lambda>i. map (f i) [0..<c]) [0..<r])"
  have len: "length ?rows = r * c" using Suc.IH by simp
  have nth: "(?rows @ map (f r) [0..<c]) ! (i * c + j) = f i j" if "i < Suc r" "j < c" for i j
  proof (cases "i < r")
    case True
    then have "Suc i * c \<le> r * c" by (intro mult_le_mono1) simp
    then have "i * c + j < r * c" using that(2) by simp
    then show ?thesis
      using Suc.IH True that(2) by (simp add: nth_append len)
  next
    case False
    then have "i = r" using that(1) by simp
    then show ?thesis
      using that(2) by (simp add: nth_append len)
  qed
  show ?case
    using len nth by simp
qed

subsection \<open>The assembled scene and the events of the host\<close>

lemmas builder_defs =
  new_Engine_def new_Scene_def new_ArcRotateCamera_def update_camera_def camera_setTarget_def
  camera_attachControl_def new_DirectionalLight_def update_light_def new_ShadowGenerator_def
  new_StandardMaterial_def new_Texture_def new_CubeTexture_def
  MeshBuilder_CreateGroundFromHeightMap_def MeshBuilder_CreateBox_def add_mesh_def
  update_mesh_def record_call_def

lemma createSkyBox_result:
  "createSkyBox w =
     w\<lparr>meshes := meshes w @
          [\<lparr>mesh_name = ''skyBox'', shape = Box 1000,
            position = \<lparr>vec_x = 0, vec_y = 0, vec_z = 0\<rparr>,
            receiveShadows = False,
            mesh_material = Some
              \<lparr>mat_name = ''skyBox'', backFaceCulling = False, diffuseTexture = None,
               reflectionTexture = Some \<lparr>tex_kind = CubeMap,
                  tex_url = ''src/assets/map/skybox/skybox'', coordinatesMode = SKYBOX_MODE\<rparr>,
               diffuseColor = \<lparr>col_r = 0, col_g = 0, col_b = 0\<rparr>,
               specularColor = \<lparr>col_r = 0, col_g = 0, col_b = 0\<rparr>,
               emissiveColor = \<lparr>col_r = 0, col_g = 0, col_b = 0\<rparr>,
               ambientColor = \<lparr>col_r = 0, col_g = 0, col_b = 0\<rparr>\<rparr>\<rparr>],
        calls := calls w @ [CreateBox, NewStandardMaterial ''skyBox'',
                            NewCubeTexture ''src/assets/map/skybox/skybox'']\<rparr>"
  by (simp add: createSkyBox_def builder_defs)

lemma createRealGround_result:
  "createRealGround w =
     w\<lparr>meshes := meshes w @
          [\<lparr>mesh_name = ''12d3'',
            shape = GroundFromHeightMap ''/src/assets/map/height_map.png'' 20 20 250 10 2,
            position = \<lparr>vec_x = 0, vec_y = 0, vec_z = 0\<rparr>,
            receiveShadows = True,
            mesh_material = Some
              \<lparr>mat_name = ''ground'', backFaceCulling = True,
               diffuseTexture = Some \<lparr>tex_kind = Texture2D,
                  tex_url = ''/src/assets/map/bit_map.png'', coordinatesMode = EXPLICIT_MODE\<rparr>,
               reflectionTexture = None,
               diffuseColor = \<lparr>col_r = 1, col_g = 1, col_b = 1\<rparr>,
               specularColor = \<lparr>col_r = 0.1, col_g = 0.1, col_b = 0.1\<rparr>,
               emissiveColor = \<lparr>col_r = 1, col_g = 1, col_b = 1\<rparr>,
               ambientColor = \<lparr>col_r = 0.23, col_g = 0.98, col_b = 0.53\<rparr>\<rparr>\<rparr>],
        calls := calls w @ [NewStandardMaterial ''ground'',
                            NewTexture ''/src/assets/map/bit_map.png'',
                            CreateGroundFromHeightMap]\<rparr>"
  by (simp add: createRealGround_def builder_defs)

lemma createScene_calls:
  "calls (createScene e c w) = calls w @
     [NewScene, NewArcRotateCamera, CameraSetTarget, CameraAttachControl,
      NewDirectionalLight, NewShadowGenerator 1024,
      NewStandardMaterial ''ground'', NewTexture ''/src/assets/map/bit_map.png'',
      CreateGroundFromHeightMap,
      CreateBox, NewStandardMaterial ''skyBox'', NewCubeTexture ''src/assets/map/skybox/skybox'']"
  by (simp add: createScene_def createSkyBox_result createRealGround_result builder_defs)

lemma createScene_shadowGenerator:
  "shadowGenerator (createScene e c w) = Some \<lparr>mapSize = 1024, sg_light = 0, renderList = []\<rparr>"
  by (simp add: createScene_def createSkyBox_result createRealGround_result builder_defs)

lemma createScene_cameras:
  "cameras (createScene e c w) =
     [\<lparr>cam_name = ''camera'', alpha = - pi / 2, beta = pi / 2.5, radius = 10,
       target = \<lparr>vec_x = 0, vec_y = 0, vec_z = 0\<rparr>, attached_to = Some c\<rparr>]"
  by (simp add: createScene_def createSkyBox_result createRealGround_result builder_defs)

lemma createScene_lights:
  "lights (createScene e c w) =
     [\<lparr>light_name = ''dir01'', direction = \<lparr>vec_x = 0, vec_y = - 0.1, vec_z = 0.1\<rparr>,
       light_position = \<lparr>vec_x = 10, vec_y = 10, vec_z = 0\<rparr>\<rparr>]"
  by (simp add: createScene_def createSkyBox_result createRealGround_result builder_defs)

lemma createScene_mesh_names:
  "map mesh_name (meshes (createScene e c w)) = [''12d3'', ''skyBox'']"
  by (simp add: createScene_def createSkyBox_result createRealGround_result builder_defs)

lemma createScene_others:
  "activeRenderLoops (createScene e c w) = activeRenderLoops w"
  "window_listeners (createScene e c w) = window_listeners w"
  "random_source (createScene e c w) = random_source w"
  "random_calls (createScene e c w) = random_calls w"
  by (simp_all add: createScene_def createSkyBox_result createRealGround_result builder_defs)

lemma Init_hooks:
  "activeRenderLoops (Init c w) =
     activeRenderLoops w @ [[RenderScene (length (activeRenderLoops w))]]"
  "window_listeners (Init c w) =
     window_listeners w @ [(''resize'', ResizeEngine (length (activeRenderLoops w)))]"
  "shadowGenerator (Init c w) = Some \<lparr>mapSize = 1024, sg_light = 0, renderList = []\<rparr>"
  "length (meshes (Init c w)) = 2"
  by (simp_all add: Init_def Engine_runRenderLoop_def window_addEventListener_def new_Engine_def
      record_call_def createScene_others createScene_shadowGenerator
      createScene_def createSkyBox_result createRealGround_result builder_defs)

subsection \<open>The layout\<close>

lemma createGround_runs:
  assumes "shadowGenerator w \<noteq> None"
  shows "\<exists>w'. createGround sz X Z w = Inr w' \<and>
      new_meshes w w' =
        field_columns (random_source w) (random_calls w) X Z (nat (size_z sz)) 0 (nat (size_x sz))"
proof -
  from assms obtain sg where sg: "shadowGenerator w = Some sg" by auto
  show ?thesis
    by (simp add: createGround_Some [OF sg] new_meshes_def)
qed

lemma layout_points:
  assumes "new_meshes w w' = field_columns rnd k X Z c 0 r"
  shows "map mesh_point (new_meshes w w') =
     concat (map (\<lambda>i. map (\<lambda>j. (X + real i * 0.75,
                                  (if even i then Z + 0.5 else Z) + real j * (sqrt 3 / 2)))
                        [0..<c])
              [0..<r])"
  unfolding assms by (rule field_points)


lemma Init_random:
  "random_source (Init c w) = random_source w"
  "random_calls (Init c w) = random_calls w"
  by (simp_all add: Init_def Engine_runRenderLoop_def window_addEventListener_def new_Engine_def
      record_call_def createScene_others Let_def)

lemma mounted_world_facts:
  "shadowGenerator mounted_world = Some \<lparr>mapSize = 1024, sg_light = 0, renderList = []\<rparr>"
  "length (meshes mounted_world) = 2"
  "random_source mounted_world = fixed_random"
  "random_calls mounted_world = 0"
  by (simp_all add: mounted_world_def Init_hooks Init_random initial_world_def)

lemma field_column_shape:
  assumes "m \<in> set (field_columns rnd k X Z c r n)"
  shows "\<exists>x z q. m = column x z (rnd q / 2 + 0.5)"
  using assms by (auto simp: field_columns_def line_columns_def)

lemma createGround_empty:
  assumes "size_x sz \<le> 0 \<or> size_z sz \<le> 0"
  shows "createGround sz X Z w = Inr w"
proof (cases "shadowGenerator w")
  case None
  then show ?thesis
    using assms by (auto simp: createGround_None)
next
  case (Some sg)
  have "nat (size_x sz) * nat (size_z sz) = 0"
    using assms by auto
  moreover have "field_columns (random_source w) (random_calls w) X Z
      (nat (size_z sz)) 0 (nat (size_x sz)) = []"
    using assms by (intro field_columns_empty) auto
  ultimately show ?thesis
    using Some by (simp add: createGround_Some [OF Some] line_calls_def)
qed

subsection \<open>Events of the host\<close>

lemma count_call_of_resize:
  "count_list (map call_of fs) (EngineResize k) = count_list fs (ResizeEngine k)"
proof (induction fs)
  case Nil
  show ?case by simp
next
  case (Cons f fs)
  then show ?case by (cases f) simp_all
qed

lemma count_call_of_render:
  "count_list (map call_of fs) (SceneRender k) = count_list fs (RenderScene k)"
proof (induction fs)
  case Nil
  show ?case by simp
next
  case (Cons f fs)
  then show ?case by (cases f) simp_all
qed

lemmas count_call_of = count_call_of_resize count_call_of_render

lemma calls_fold_invoke: "calls (fold invoke fs w) = calls w @ map call_of fs"
  by (induction fs arbitrary: w) (simp_all add: invoke_def record_call_def)

lemma fold_invoke_others:
  "activeRenderLoops (fold invoke fs w) = activeRenderLoops w"
  "window_listeners (fold invoke fs w) = window_listeners w"
  by (induction fs arbitrary: w) (simp_all add: invoke_def record_call_def)

lemma Init_calls:
  "calls (Init c w) = calls w @
     [NewEngine, NewScene, NewArcRotateCamera, CameraSetTarget, CameraAttachControl,
      NewDirectionalLight, NewShadowGenerator 1024,
      NewStandardMaterial ''ground'', NewTexture ''/src/assets/map/bit_map.png'',
      CreateGroundFromHeightMap,
      CreateBox, NewStandardMaterial ''skyBox'', NewCubeTexture ''src/assets/map/skybox/skybox'',
      RunRenderLoop, AddEventListener ''resize'']"
  by (simp add: Init_def Engine_runRenderLoop_def window_addEventListener_def new_Engine_def
      record_call_def createScene_calls Let_def)

lemma reaction_simps:
  "reaction AnimationFrame w = map call_of (concat (activeRenderLoops w))"
  "reaction (WindowEvent t) w = map call_of (listeners_of t w)"
  by (simp_all add: reaction_def calls_fold_invoke)

lemma count_unknown:
  assumes "list_all (\<lambda>f. engine_of f < n) fs" and "n \<le> engine_of g"
  shows "count_list fs g = 0"
  using assms by (induction fs) auto

lemma closures_known_Init:
  assumes "closures_known w"
  shows "closures_known (Init c w)"
  using assms
  by (auto simp: closures_known_def Init_hooks list_all_iff less_Suc_eq)

lemma listeners_of_Init:
  "listeners_of t (Init c w) =
     listeners_of t w @ (if t = ''resize'' then [ResizeEngine (length (activeRenderLoops w))] else [])"
  by (simp add: listeners_of_def Init_hooks)

lemma listeners_of_known:
  assumes "closures_known w"
  shows "list_all (\<lambda>f. engine_of f < length (activeRenderLoops w)) (listeners_of t w)"
  using assms by (auto simp: closures_known_def listeners_of_def list_all_iff)

lemma hooked_Init:
  assumes "closures_known w"
  shows "hooked (length (activeRenderLoops w)) (Init c w)"
proof -
  let ?e = "length (activeRenderLoops w)"
  have loops: "list_all (\<lambda>f. engine_of f < ?e) (concat (activeRenderLoops w))"
    using assms by (simp add: closures_known_def)
  have 0: "count_list (concat (activeRenderLoops w)) (RenderScene ?e) = 0"
    "count_list (concat (activeRenderLoops w)) (ResizeEngine ?e) = 0"
    by (rule count_unknown [OF loops], simp)+
  have 1: "count_list (listeners_of t w) (RenderScene ?e) = 0"
    "count_list (listeners_of t w) (ResizeEngine ?e) = 0" for t
    by (rule count_unknown [OF listeners_of_known [OF assms]], simp)+
  show ?thesis
    unfolding hooked_def
    using closures_known_Init [OF assms] 0 1
    by (simp add: Init_hooks listeners_of_Init)
qed

lemma hooked_Mount:
  assumes "hooked e w"
  shows "hooked e (Init c w)"
proof -
  have lt: "e < length (activeRenderLoops w)" and known: "closures_known w"
    using assms by (simp_all add: hooked_def)
  then have ne: "length (activeRenderLoops w) \<noteq> e" by simp
  show ?thesis
    using assms ne closures_known_Init [OF known]
    by (simp add: hooked_def Init_hooks listeners_of_Init)
qed

lemma hooked_dispatch:
  assumes "hooked e w"
  shows "hooked e (dispatch ev w)"
proof (cases ev)
  case AnimationFrame
  then show ?thesis
    using assms by (simp add: hooked_def closures_known_def listeners_of_def fold_invoke_others)
next
  case (WindowEvent t)
  then show ?thesis
    using assms by (simp add: hooked_def closures_known_def listeners_of_def fold_invoke_others)
next
  case (Mount c)
  then show ?thesis
    using hooked_Mount [OF assms] by simp
qed

lemma count_dispatch:
  assumes "hooked e w"
  shows "count_list (calls (dispatch ev w)) (EngineResize e)
           = count_list (calls w) (EngineResize e) + (if ev = WindowEvent ''resize'' then 1 else 0)"
    and "count_list (calls (dispatch ev w)) (SceneRender e)
           = count_list (calls w) (SceneRender e) + (if ev = AnimationFrame then 1 else 0)"
proof -
  have h: "count_list (concat (activeRenderLoops w)) (RenderScene e) = 1"
    "count_list (concat (activeRenderLoops w)) (ResizeEngine e) = 0"
    "\<And>t. count_list (listeners_of t w) (ResizeEngine e) = (if t = ''resize'' then 1 else 0)"
    "\<And>t. count_list (listeners_of t w) (RenderScene e) = 0"
    using assms by (simp_all add: hooked_def)
  show "count_list (calls (dispatch ev w)) (EngineResize e)
           = count_list (calls w) (EngineResize e) + (if ev = WindowEvent ''resize'' then 1 else 0)"
    by (cases ev) (simp_all add: calls_fold_invoke count_call_of h Init_calls)
  show "count_list (calls (dispatch ev w)) (SceneRender e)
           = count_list (calls w) (SceneRender e) + (if ev = AnimationFrame then 1 else 0)"
    by (cases ev) (simp_all add: calls_fold_invoke count_call_of h Init_calls)
qed

lemma count_run:
  assumes "hooked e w"
  shows "hooked e (fold dispatch evs w)
     \<and> count_list (calls (fold dispatch evs w)) (EngineResize e)
         = count_list (calls w) (EngineResize e) + count_list evs (WindowEvent ''resize'')
     \<and> count_list (calls (fold dispatch evs w)) (SceneRender e)
         = count_list (calls w) (SceneRender e) + count_list evs AnimationFrame"
  using assms
proof (induction evs arbitrary: w)
  case Nil
  then show ?case by simp
next
  case (Cons ev evs)
  from Cons.IH [OF hooked_dispatch [OF Cons.prems]] count_dispatch [OF Cons.prems, of ev]
  show ?case by simp
qed


lemma listeners_dispatch:
  "length (listeners_of ''resize'' (dispatch ev w)) =
     length (listeners_of ''resize'' w) + (if is_mount ev then 1 else 0)"
  by (cases ev) (simp_all add: listeners_of_def fold_invoke_others Init_hooks)

lemma listeners_run:
  "length (listeners_of ''resize'' (fold dispatch evs w)) =
     length (listeners_of ''resize'' w) + length (filter is_mount evs)"
  by (induction evs arbitrary: w) (simp_all add: listeners_dispatch)

lemma resize_reaction_length:
  "length (reaction (WindowEvent ''resize'') (fold dispatch evs (Init c w))) =
     length (listeners_of ''resize'' w) + 1 + length (filter is_mount evs)"
  by (simp add: reaction_simps listeners_run listeners_of_Init)

lemma mounted_world_hooks:
  "activeRenderLoops mounted_world = [[RenderScene 0]]"
  "window_listeners mounted_world = [(''resize'', ResizeEngine 0)]"
  by (simp_all add: mounted_world_def Init_hooks initial_world_def)


subsection \<open>Rounding to a double\<close>

lemma round_even_of_int: "round_even (of_int n) = n"
  by (simp add: round_even_def)

lemma round_even_ge:
  assumes "of_int n \<le> y"
  shows "n \<le> round_even y"
proof -
  have "n \<le> \<lfloor>y\<rfloor>" using assms by (simp add: le_floor_iff)
  then show ?thesis
    by (auto simp: round_even_def Let_def)
qed

lemma round_even_le:
  assumes "y \<le> of_int n"
  shows "round_even y \<le> n"
proof (cases "y = of_int n")
  case True
  then show ?thesis by (simp add: round_even_of_int)
next
  case False
  with assms have "y < of_int n" by simp
  then have "\<lfloor>y\<rfloor> < n" by (simp add: floor_less_iff)
  then show ?thesis
    by (auto simp: round_even_def Let_def)
qed

lemma round_even_error: "\<bar>of_int (round_even y) - y\<bar> \<le> 1 / 2"
proof -
  have "of_int \<lfloor>y\<rfloor> \<le> y" and "y < of_int \<lfloor>y\<rfloor> + 1"
    by linarith+
  then show ?thesis
    by (auto simp: round_even_def Let_def abs_le_iff)
qed

lemma powi_pos [simp]: "0 < (2::real) powi k"
  by (simp add: power_int_def)

lemma powi_add: "(2::real) powi (a + b) = 2 powi a * 2 powi b"
  by (simp add: power_int_add)

lemma powi_diff: "(2::real) powi (a - b) = 2 powi a / 2 powi b"
  by (simp add: power_int_diff)

lemma powi_nat: "0 \<le> k \<Longrightarrow> (2::real) powi k = of_int (2 ^ nat k)"
  by (simp add: power_int_def)

lemma powi_mono: "a \<le> b \<Longrightarrow> (2::real) powi a \<le> 2 powi b"
  by (simp add: power_int_increasing)

lemma powi_le_imp_le:
  assumes "(2::real) powi a \<le> 2 powi b"
  shows "a \<le> b"
proof (rule ccontr)
  assume "\<not> a \<le> b"
  then have "b < a" by simp
  then have "(2::real) powi b < 2 powi a"
    by (intro power_int_strict_increasing) simp_all
  with assms show False by simp
qed

lemma powr_powi: "2 powr real_of_int k = 2 powi k"
  by (simp add: powr_real_of_int')

lemma floor_log2:
  assumes "0 < x"
  shows "2 powi \<lfloor>log 2 x\<rfloor> \<le> x" and "x < 2 powi (\<lfloor>log 2 x\<rfloor> + 1)"
proof -
  have "2 powr real_of_int \<lfloor>log 2 x\<rfloor> \<le> x \<and> x < 2 powr real_of_int (\<lfloor>log 2 x\<rfloor> + 1)"
    using floor_log_eq_powr_iff [of x 2 "\<lfloor>log 2 x\<rfloor>"] assms by fastforce
  then show "2 powi \<lfloor>log 2 x\<rfloor> \<le> x" and "x < 2 powi (\<lfloor>log 2 x\<rfloor> + 1)"
    unfolding powr_powi by simp_all
qed

lemma floor_log2_eq:
  assumes "2 powi k \<le> x" and "x < 2 powi (k + 1)"
  shows "\<lfloor>log 2 x\<rfloor> = k"
proof -
  have "0 < x" using assms(1) powi_pos [of k] by linarith
  moreover have "2 powr real_of_int k \<le> x \<and> x < 2 powr real_of_int (k + 1)"
    unfolding powr_powi using assms by simp
  ultimately show ?thesis
    using floor_log_eq_powr_iff [of x 2 k] by fastforce
qed

lemma exponent_eq:
  assumes "2 powi k \<le> \<bar>x\<bar>" and "\<bar>x\<bar> < 2 powi (k + 1)" and "- 1022 \<le> k"
  shows "exponent x = k"
  using floor_log2_eq [OF assms(1,2)] assms(3) by (simp add: exponent_def)

lemma exponent_le:
  assumes "x \<noteq> 0" and "\<bar>x\<bar> \<le> 2 powi k" and "- 1022 \<le> k"
  shows "exponent x \<le> k"
proof -
  have pos: "0 < \<bar>x\<bar>" using assms(1) by simp
  have "(2::real) powi \<lfloor>log 2 \<bar>x\<bar>\<rfloor> \<le> 2 powi k"
    using floor_log2(1) [OF pos] assms(2) by linarith
  then have "\<lfloor>log 2 \<bar>x\<bar>\<rfloor> \<le> k"
    by (rule powi_le_imp_le)
  then show ?thesis
    using assms(3) by (simp add: exponent_def)
qed

lemma exponent_ge: "- 1022 \<le> exponent x"
  by (simp add: exponent_def)

lemma double_error:
  "\<bar>double x - x\<bar> \<le> rounding_error x"
proof (cases "x = 0")
  case True
  then show ?thesis by (simp add: double_def rounding_error_def)
next
  case False
  let ?u = "ulp x"
  have u: "0 < ?u" by (simp add: ulp_def)
  have "double x - x = (of_int (round_even (x / ?u)) - x / ?u) * ?u"
    using False u by (simp add: double_def field_simps)
  then have "\<bar>double x - x\<bar> = \<bar>of_int (round_even (x / ?u)) - x / ?u\<bar> * ?u"
    using u by (simp add: abs_mult)
  also have "\<dots> \<le> 1 / 2 * ?u"
    using round_even_error [of "x / ?u"] u by (intro mult_right_mono) simp_all
  also have "\<dots> \<le> rounding_error x"
  proof -
    define k where "k = \<lfloor>log 2 \<bar>x\<bar>\<rfloor>"
    have below: "2 powi k \<le> \<bar>x\<bar>"
      unfolding k_def using floor_log2(1) [of "\<bar>x\<bar>"] False by simp
    show ?thesis
    proof (cases "- 1022 \<le> k")
      case True
      then have "exponent x = k"
        unfolding exponent_def k_def [symmetric] by (rule max_absorb1)
      then have "?u = 2 powi k / 2 powi 52"
        by (simp add: ulp_def powi_diff)
      then have "1 / 2 * ?u = 2 powi k / 2 ^ 53"
        by simp
      also have "\<dots> \<le> \<bar>x\<bar> / 2 ^ 53"
        using below by (intro divide_right_mono) simp_all
      finally show ?thesis by (simp add: rounding_error_def)
    next
      case False
      then have "exponent x = - 1022"
        unfolding exponent_def k_def [symmetric] by (intro max_absorb2) simp
      then have "?u = 2 powi (- 1074)"
        by (simp add: ulp_def)
      moreover have "(2::real) powi (- 1075) = 2 powi (- 1074) * 2 powi (- 1)"
        using powi_add [of "- 1074" "- 1"] by simp
      moreover have "(2::real) powi (- 1) = 1 / 2"
        by (simp add: power_int_minus inverse_eq_divide)
      ultimately have "1 / 2 * ?u = 2 powi (- 1075)"
        by simp
      then show ?thesis by (simp add: rounding_error_def)
    qed
  qed
  finally show ?thesis .
qed

lemma double_0 [simp]: "double 0 = 0"
  by (simp add: double_def)

lemma double_exact:
  assumes "x = of_int m * ulp x"
  shows "double x = x"
proof (cases "x = 0")
  case True
  then show ?thesis by simp
next
  case False
  have u: "ulp x \<noteq> 0" by (simp add: ulp_def)
  have "x / ulp x = of_int m"
    using u by (subst assms) simp
  then show ?thesis
    using False assms by (simp add: double_def round_even_of_int)
qed

lemma double_eval:
  assumes "2 powi k \<le> \<bar>x\<bar>" and "\<bar>x\<bar> < 2 powi (k + 1)" and "- 1022 \<le> k"
  shows "double x = of_int (round_even (x / 2 powi (k - 52))) * 2 powi (k - 52)"
proof -
  have "0 < \<bar>x\<bar>" using assms(1) powi_pos [of k] by linarith
  then have "x \<noteq> 0" by simp
  then show ?thesis
    by (simp add: double_def ulp_def exponent_eq [OF assms])
qed

lemma powi_split52: "(2::real) powi j = of_int (2 ^ 52) * 2 powi (j - 52)"
proof -
  have "(2::real) powi 52 = of_int (2 ^ 52)"
    by (simp add: power_int_def)
  then show ?thesis
    using powi_add [of 52 "j - 52"] by simp
qed

lemma powi_split53: "(2::real) powi (j + 1) = of_int (2 ^ 53) * 2 powi (j - 52)"
proof -
  have "(2::real) powi 53 = of_int (2 ^ 53)"
    by (simp add: power_int_def)
  then show ?thesis
    using powi_add [of 53 "j - 52"] by (simp add: add.commute)
qed

lemma powi_Suc: "(2::real) powi (j + 1) = 2 powi j * 2"
  using powi_add [of j 1] by simp

lemma exponent_powi: "- 1022 \<le> j \<Longrightarrow> exponent (2 powi j) = j"
  by (intro exponent_eq) (simp_all add: power_int_strict_increasing)

lemma double_powi:
  assumes "- 1022 \<le> j"
  shows "double (2 powi j) = 2 powi j"
proof -
  have "ulp (2 powi j) = 2 powi (j - 52)"
    by (simp add: ulp_def exponent_powi [OF assms])
  then have "2 powi j = of_int (2 ^ 52) * ulp (2 powi j)"
    using powi_split52 [of j] by simp
  then show ?thesis
    by (rule double_exact)
qed

lemma double_binade:
  assumes "2 powi k \<le> x" and "x \<le> 2 powi (k + 1)" and "- 1022 \<le> k"
  shows "\<exists>m. double x = of_int m * 2 powi (k - 52)
           \<and> 2 powi k \<le> double x \<and> double x \<le> 2 powi (k + 1)"
proof (cases "x = 2 powi (k + 1)")
  case True
  have "double x = x"
    unfolding True using assms(3) by (intro double_powi) simp
  moreover have "x = of_int (2 ^ 53) * 2 powi (k - 52)"
    unfolding True by (rule powi_split53)
  ultimately show ?thesis
    using assms(1,2) by metis
next
  case False
  let ?u = "(2::real) powi (k - 52)"
  let ?m = "round_even (x / ?u)"
  have pos: "0 < x" using assms(1) powi_pos [of k] by linarith
  have lt: "x < 2 powi (k + 1)" using assms(2) False by simp
  have d: "double x = of_int ?m * ?u"
    using assms(1) lt pos by (intro double_eval assms(3)) simp_all
  note lo = powi_split52 [of k]
  note hi = powi_split53 [of k]
  have "of_int (2 ^ 52) * ?u \<le> x"
    using assms(1) unfolding lo .
  then have "of_int (2 ^ 52) \<le> x / ?u"
    by (simp only: pos_le_divide_eq [OF powi_pos])
  then have "2 ^ 52 \<le> ?m" by (rule round_even_ge)
  then have "(of_int (2 ^ 52) :: real) \<le> of_int ?m" by (simp only: of_int_le_iff)
  then have "of_int (2 ^ 52) * ?u \<le> of_int ?m * ?u"
    by (intro mult_right_mono) simp_all
  then have low: "2 powi k \<le> double x"
    unfolding d lo .
  have "x \<le> of_int (2 ^ 53) * ?u"
    using assms(2) unfolding hi .
  then have "x / ?u \<le> of_int (2 ^ 53)"
    by (simp only: pos_divide_le_eq [OF powi_pos])
  then have "?m \<le> 2 ^ 53" by (rule round_even_le)
  then have "(of_int ?m :: real) \<le> of_int (2 ^ 53)" by (simp only: of_int_le_iff)
  then have "of_int ?m * ?u \<le> of_int (2 ^ 53) * ?u"
    by (intro mult_right_mono) simp_all
  then have high: "double x \<le> 2 powi (k + 1)"
    unfolding d hi .
  show ?thesis
    using d low high by blast
qed

lemma double_half:
  assumes "h = of_int m * 2 powi (k - 52)" and "2 powi k \<le> h" and "h \<le> 2 powi (k + 1)"
    and "- 1021 \<le> k"
  shows "double (h / 2) = h / 2"
proof (cases "h = 2 powi (k + 1)")
  case True
  have half: "h / 2 = 2 powi k"
    unfolding True powi_Suc by simp
  show ?thesis
    unfolding half using assms(4) by (intro double_powi) simp
next
  case False
  then have lt: "h < 2 powi (k + 1)" using assms(3) by simp
  have pos: "0 < h" using assms(2) powi_pos [of k] by linarith
  have k1: "(2::real) powi k = 2 powi (k - 1) * 2"
    using powi_Suc [of "k - 1"] by simp
  have "2 powi (k - 1) \<le> \<bar>h / 2\<bar>"
    using assms(2) pos unfolding k1 by simp
  moreover have "\<bar>h / 2\<bar> < 2 powi (k - 1 + 1)"
    using lt pos unfolding powi_Suc [of k] by simp
  ultimately have "exponent (h / 2) = k - 1"
    using assms(4) by (intro exponent_eq) simp_all
  then have u: "ulp (h / 2) = 2 powi (k - 1 - 52)"
    by (simp add: ulp_def)
  have "(2::real) powi (k - 52) = 2 powi (k - 1 - 52) * 2"
    using powi_Suc [of "k - 1 - 52"] by simp
  then have e: "h / 2 = of_int m * 2 powi (k - 1 - 52)"
    by (simp add: assms(1))
  have "h / 2 = of_int m * ulp (h / 2)"
    by (subst u) (rule e)
  then show ?thesis
    by (rule double_exact)
qed

lemma double_small:
  assumes "0 \<le> x" and "x \<le> 2 powi k" and "- 1022 \<le> k"
  shows "0 \<le> double x \<and> double x \<le> 2 powi k"
proof (cases "x = 0")
  case True
  then show ?thesis by simp
next
  case False
  let ?u = "ulp x"
  let ?m = "round_even (x / ?u)"
  define n where "n = k - (exponent x - 52)"
  have u: "0 < ?u" by (simp add: ulp_def)
  have d: "double x = of_int ?m * ?u"
    using False by (simp add: double_def)
  have "exponent x \<le> k"
    using False assms by (intro exponent_le) simp_all
  then have n: "0 \<le> n" by (simp add: n_def)
  have top: "(2::real) powi k = of_int (2 ^ nat n) * ?u"
    unfolding powi_nat [OF n, symmetric] ulp_def powi_add [symmetric] by (simp add: n_def)
  have "of_int 0 \<le> x / ?u"
    using assms(1) u by simp
  then have "0 \<le> ?m" by (rule round_even_ge)
  then have low: "0 \<le> double x"
    unfolding d using u by simp
  have "x / ?u \<le> of_int (2 ^ nat n)"
    using assms(2) u unfolding top by (simp add: pos_divide_le_eq)
  then have "?m \<le> 2 ^ nat n" by (rule round_even_le)
  then have "(of_int ?m :: real) \<le> of_int (2 ^ nat n)" by (simp only: of_int_le_iff)
  then have "double x \<le> 2 powi k"
    unfolding d top using u by (intro mult_right_mono) simp_all
  with low show ?thesis by simp
qed

lemma powi_neg_numeral: "(2::real) powi (- numeral n) = 1 / 2 ^ numeral n"
  by (simp add: power_int_minus inverse_eq_divide)

lemma powi_pos_numeral: "(2::real) powi (numeral n) = 2 ^ numeral n"
  by simp

lemmas powi_eval = powi_neg_numeral powi_pos_numeral

lemma powi_minus1: "(2::real) powi (- 1) = 1 / 2"
  by (simp add: power_int_minus inverse_eq_divide)

lemma height_double_range:
  assumes "0 \<le> r" and "r < 1"
  shows "1 / 2 \<le> double (double (r / 2) + 0.5)
     \<and> double (double (r / 2) + 0.5) \<le> 1
     \<and> double (double (double (r / 2) + 0.5) / 2) = double (double (r / 2) + 0.5) / 2"
proof -
  let ?s = "double (r / 2)"
  let ?h = "double (?s + 0.5)"
  have "0 \<le> ?s \<and> ?s \<le> 2 powi (- 1)"
    using assms by (intro double_small) (simp_all add: powi_minus1)
  then have s: "2 powi (- 1) \<le> ?s + 0.5" "?s + 0.5 \<le> 2 powi (- 1 + 1)"
    by (simp_all add: powi_minus1)
  from double_binade [OF s]
  obtain m where m: "?h = of_int m * 2 powi (- 1 - 52)"
    and lo: "2 powi (- 1) \<le> ?h" and hi: "?h \<le> 2 powi (- 1 + 1)"
    by auto
  have "double (?h / 2) = ?h / 2"
    using m lo hi by (rule double_half) simp
  then show ?thesis
    using lo hi by (simp add: powi_minus1)
qed

lemma double_half_one [simp]: "double (1 / 2) = 1 / 2"
  using double_powi [of "- 1"] by (simp add: powi_minus1)

lemma double_largest_draw:
  "double (double ((1 - 1 / 2 ^ 53) / 2) + 0.5) = 1"
proof -
  let ?a = "(1 - 1 / 2 ^ 53) / 2 :: real"
  have "exponent ?a = - 2"
    by (intro exponent_eq) (simp_all add: powi_eval powi_minus1)
  then have "ulp ?a = 2 powi (- 54)"
    by (simp add: ulp_def)
  then have "?a = of_int (2 ^ 53 - 1) * ulp ?a"
    by (simp add: powi_eval)
  then have a: "double ?a = ?a"
    by (rule double_exact)
  have r: "round_even ((?a + 0.5) / 2 powi (- 1 - 52)) = 2 ^ 53"
    by (simp add: powi_eval round_even_def Let_def)
  have "double (?a + 0.5) = of_int (round_even ((?a + 0.5) / 2 powi (- 1 - 52))) * 2 powi (- 1 - 52)"
    by (intro double_eval) (simp_all add: powi_eval powi_minus1)
  then have "double (?a + 0.5) = 1"
    unfolding r by (simp add: powi_eval)
  then show ?thesis
    by (simp only: a)
qed

lemma double_Rats: "double x \<in> \<rat>"
  by (simp add: double_def ulp_def power_int_def)

lemma three_dvd_square:
  fixes k :: nat
  assumes "3 dvd k * k"
  shows "3 dvd k"
proof -
  have sq: "(k * k) mod 3 = ((k mod 3) * (k mod 3)) mod 3"
    by (simp add: mod_mult_eq)
  have "k mod 3 = 0 \<or> k mod 3 = 1 \<or> k mod 3 = 2"
    by arith
  moreover have "(k * k) mod 3 = 0"
    using assms by simp
  ultimately have "k mod 3 = 0"
    using sq by auto
  then show ?thesis by presburger
qed

lemma sqrt3_irrational: "sqrt 3 \<notin> \<rat>"
proof
  assume "sqrt 3 \<in> \<rat>"
  then obtain m n :: nat where n: "n \<noteq> 0" and eq: "\<bar>sqrt 3\<bar> = real m / real n"
    and cop: "coprime m n"
    by (rule Rats_abs_nat_div_natE)
  have "real m = sqrt 3 * real n"
    using n eq by (simp add: field_simps)
  then have "real m * real m = (sqrt 3 * sqrt 3) * (real n * real n)"
    by simp
  then have "real (m * m) = real (3 * (n * n))"
    by simp
  then have sq: "m * m = 3 * (n * n)"
    by (simp only: of_nat_eq_iff)
  then have "3 dvd m * m" by simp
  then have m3: "3 dvd m" by (rule three_dvd_square)
  then obtain q where q: "m = 3 * q" by (auto elim: dvdE)
  with sq have "n * n = 3 * (q * q)" by simp
  then have "3 dvd n * n" by simp
  then have "3 dvd n" by (rule three_dvd_square)
  with m3 cop have "(3::nat) = 1"
    by (intro coprime_common_divisor_nat [of m n 3]) simp_all
  then show False by simp
qed

lemma sqrt3_bounds: "2 powi 0 \<le> sqrt 3" "sqrt 3 \<le> 2 powi (0 + 1)"
proof -
  show "2 powi 0 \<le> sqrt 3" by simp
  have "sqrt 3 \<le> 2" by (rule real_le_lsqrt) simp_all
  then show "sqrt 3 \<le> 2 powi (0 + 1)" by simp
qed

lemma Math_sqrt3_half:
  "double (Math_sqrt 3 / 2) = Math_sqrt 3 / 2"
  "\<bar>Math_sqrt 3 / 2 - sqrt 3 / 2\<bar> \<le> 1 / 2 ^ 53"
proof -
  from double_binade [OF sqrt3_bounds]
  obtain m where m: "double (sqrt 3) = of_int m * 2 powi (0 - 52)"
    and lo: "2 powi 0 \<le> double (sqrt 3)" and hi: "double (sqrt 3) \<le> 2 powi (0 + 1)"
    by auto
  show "double (Math_sqrt 3 / 2) = Math_sqrt 3 / 2"
    unfolding Math_sqrt_def using m lo hi by (rule double_half) simp
  have "sqrt 3 \<le> 2" using sqrt3_bounds(2) by simp
  then have "rounding_error (sqrt 3) \<le> 2 / 2 ^ 53"
    by (simp add: rounding_error_def powi_neg_numeral frac_le)
  then have b: "\<bar>double (sqrt 3) - sqrt 3\<bar> \<le> 2 / 2 ^ 53"
    using double_error [of "sqrt 3"] by linarith
  have "Math_sqrt 3 / 2 - sqrt 3 / 2 = (double (sqrt 3) - sqrt 3) / 2"
    by (simp add: Math_sqrt_def diff_divide_distrib)
  also have "\<bar>\<dots>\<bar> \<le> 1 / 2 ^ 53"
    using b by simp
  finally show "\<bar>Math_sqrt 3 / 2 - sqrt 3 / 2\<bar> \<le> 1 / 2 ^ 53" .
qed

lemma next_z_error:
  "\<bar>next_z z - z - sqrt 3 / 2\<bar> \<le> rounding_error (z + double (Math_sqrt 3 / 2)) + 1 / 2 ^ 53"
proof -
  let ?c = "double (Math_sqrt 3 / 2)"
  have "\<bar>next_z z - (z + ?c)\<bar> \<le> rounding_error (z + ?c)"
    unfolding next_z_def by (rule double_error)
  moreover have "\<bar>?c - sqrt 3 / 2\<bar> \<le> 1 / 2 ^ 53"
    unfolding Math_sqrt3_half(1) by (rule Math_sqrt3_half(2))
  ultimately show ?thesis
    by linarith
qed

lemma row_x_error:
  "\<bar>double (X + double t) - (X + t)\<bar> \<le> rounding_error (X + double t) + rounding_error t"
  using double_error [of "X + double t"] double_error [of t] by linarith

lemma double_three_quarters: "double (3 / 4) = 3 / 4"
proof -
  have "exponent (3 / 4) = - 1"
    by (intro exponent_eq) (simp_all add: powi_minus1)
  then have "ulp (3 / 4) = 2 powi (- 53)"
    by (simp add: ulp_def)
  then have "3 / 4 = of_int (3 * 2 ^ 51) * ulp (3 / 4)"
    by (simp add: powi_eval)
  then show ?thesis
    by (rule double_exact)
qed

lemma double_1e17: "double (10 ^ 17) = 10 ^ 17" "double (10 ^ 17 + 3 / 4) = 10 ^ 17"
proof -
  have e: "exponent (10 ^ 17) = 56"
    by (intro exponent_eq) (simp_all add: powi_eval)
  then have "ulp (10 ^ 17) = 2 powi 4"
    by (simp add: ulp_def)
  then have "10 ^ 17 = of_int 6250000000000000 * ulp (10 ^ 17)"
    by simp
  then show "double (10 ^ 17) = 10 ^ 17"
    by (rule double_exact)
  have r: "round_even ((10 ^ 17 + 3 / 4) / 2 powi (56 - 52)) = 6250000000000000"
    by (simp add: round_even_def Let_def)
  have "double (10 ^ 17 + 3 / 4)
      = of_int (round_even ((10 ^ 17 + 3 / 4) / 2 powi (56 - 52))) * 2 powi (56 - 52)"
    by (intro double_eval) (simp_all add: powi_eval)
  then show "double (10 ^ 17 + 3 / 4) = 10 ^ 17"
    unfolding r by simp
qed

lemma double_1e17_numeral:
  "double 100000000000000000 = 100000000000000000"
  "double (400000000000000003 / 4) = 100000000000000000"
  using double_1e17 by simp_all

subsection \<open>The field of columns in doubles\<close>

lemma createGroundObject_double_Some:
  assumes "shadowGenerator w = Some sg"
  shows "createGroundObject_double x z h w =
     Inr (w\<lparr>meshes := meshes w @ [column_double x z h],
            shadowGenerator := Some (addShadowCaster (length (meshes w)) sg),
            calls := calls w @ [CreateCylinder, AddShadowCaster (length (meshes w))]\<rparr>)"
  using assms
  by (simp add: createGroundObject_double_def MeshBuilder_CreateCylinder_def add_mesh_def
      update_mesh_def record_call_def column_double_def)

lemma line_columns_double_Suc:
  "line_columns_double rnd k X Z (Suc n) =
     column_double X Z (double (double (rnd k / 2) + 0.5))
       # line_columns_double rnd (Suc k) X (next_z Z) n"
proof -
  have "[0..<Suc n] = 0 # map Suc [0..<n]"
    by (simp add: upt_conv_Cons map_Suc_upt del: upt_Suc)
  then show ?thesis
    by (simp add: line_columns_double_def comp_def funpow_swap1 del: upt_Suc)
qed

declare createGroundLine_double_loop.simps [simp del]

lemma createGroundLine_double_loop_Some:
  assumes "shadowGenerator w = Some sg" and "n = nat (len - i)"
  shows "createGroundLine_double_loop i len X Z w =
     Inr (w\<lparr>meshes := meshes w @ line_columns_double (random_source w) (random_calls w) X Z n,
            shadowGenerator :=
              Some (fold addShadowCaster [length (meshes w)..<length (meshes w) + n] sg),
            random_calls := random_calls w + n,
            calls := calls w @ line_calls (length (meshes w)) n\<rparr>)"
  using assms
proof (induction n arbitrary: i Z w sg)
  case 0
  then have "\<not> i < len" by simp
  then show ?case
    using 0 by (subst createGroundLine_double_loop.simps)
      (simp add: line_columns_double_def line_calls_def)
next
  case (Suc n)
  then have lt: "i < len" and n: "n = nat (len - (i + 1))" by simp_all
  let ?w1 = "w\<lparr>random_calls := Suc (random_calls w)\<rparr>"
  let ?h = "double (double (random_source w (random_calls w) / 2) + 0.5)"
  let ?w2 = "?w1\<lparr>meshes := meshes ?w1 @ [column_double X Z ?h],
            shadowGenerator := Some (addShadowCaster (length (meshes ?w1)) sg),
            calls := calls ?w1 @ [CreateCylinder, AddShadowCaster (length (meshes ?w1))]\<rparr>"
  have sg1: "shadowGenerator ?w1 = Some sg" using Suc.prems by simp
  have obj: "createGroundObject_double X Z ?h ?w1 = Inr ?w2"
    by (rule createGroundObject_double_Some [OF sg1])
  have sg2: "shadowGenerator ?w2 = Some (addShadowCaster (length (meshes w)) sg)" by simp
  have step: "createGroundLine_double_loop i len X Z w =
      createGroundLine_double_loop (i + 1) len X (next_z Z) ?w2"
    using lt obj by (subst createGroundLine_double_loop.simps) (simp add: Math_random_def next_z_def)
  show ?case
    unfolding step Suc.IH [OF sg2 n]
    by (simp add: line_columns_double_Suc line_calls_Suc upt_conv_Cons del: upt_Suc)
qed

lemma length_line_columns_double: "length (line_columns_double rnd k X Z n) = n"
  by (simp add: line_columns_double_def)

lemma field_columns_double_Suc:
  "field_columns_double rnd k X Z c r (Suc n) =
     line_columns_double rnd k (double (X + double (real r * 0.75)))
       (if even r then double (Z + 0.5) else Z) c
     @ field_columns_double rnd (k + c) X Z c (Suc r) n"
proof -
  have up: "[0..<Suc n] = 0 # map Suc [0..<n]"
    by (simp add: upt_conv_Cons map_Suc_upt del: upt_Suc)
  have first: "line_columns_double rnd (k + 0 * c) (double (X + double (real (r + 0) * 0.75)))
                (if even (r + 0) then double (Z + 0.5) else Z) c =
             line_columns_double rnd k (double (X + double (real r * 0.75)))
                (if even r then double (Z + 0.5) else Z) c"
    by simp
  have rest: "\<And>q. line_columns_double rnd (k + Suc q * c)
                (double (X + double (real (r + Suc q) * 0.75)))
                (if even (r + Suc q) then double (Z + 0.5) else Z) c =
             line_columns_double rnd (k + c + q * c)
                (double (X + double (real (Suc r + q) * 0.75)))
                (if even (Suc r + q) then double (Z + 0.5) else Z) c"
    by (simp add: add.assoc)
  show ?thesis
    by (simp only: field_columns_double_def up list.map concat.simps map_map comp_def first rest)
qed

declare createGround_double_loop.simps [simp del]

lemma createGround_double_loop_Some:
  assumes "shadowGenerator w = Some sg" and "0 \<le> i" and "n = nat (size_x sz - i)"
  shows "createGround_double_loop i sz X Z w =
     Inr (w\<lparr>meshes := meshes w @
              field_columns_double (random_source w) (random_calls w) X Z
                (nat (size_z sz)) (nat i) n,
            shadowGenerator :=
              Some (fold addShadowCaster
                     [length (meshes w)..<length (meshes w) + n * nat (size_z sz)] sg),
            random_calls := random_calls w + n * nat (size_z sz),
            calls := calls w @ line_calls (length (meshes w)) (n * nat (size_z sz))\<rparr>)"
  using assms
proof (induction n arbitrary: i w sg)
  case 0
  then have "\<not> i < size_x sz" by simp
  then show ?case
    using 0 by (subst createGround_double_loop.simps)
      (simp add: field_columns_double_def line_calls_def)
next
  case (Suc n)
  then have lt: "i < size_x sz" and n: "n = nat (size_x sz - (i + 1))" and i1: "0 \<le> i + 1"
    by simp_all
  let ?c = "nat (size_z sz)"
  let ?X0 = "double (X + double (real (nat i) * 0.75))"
  let ?Z0 = "if even (nat i) then double (Z + 0.5) else Z"
  let ?w1 = "w\<lparr>meshes := meshes w @
                 line_columns_double (random_source w) (random_calls w) ?X0 ?Z0 ?c,
               shadowGenerator :=
                 Some (fold addShadowCaster [length (meshes w)..<length (meshes w) + ?c] sg),
               random_calls := random_calls w + ?c,
               calls := calls w @ line_calls (length (meshes w)) ?c\<rparr>"
  have c: "?c = nat (size_z sz - 0)" by simp
  have par: "(i mod 2 = 0) = even (nat i)"
    using even_nat_iff [OF Suc.prems(2)] by (simp only: even_iff_mod_2_eq_zero)
  have x: "(of_int i :: real) = real (nat i)"
    using Suc.prems(2) by simp
  have line: "(if i mod 2 = 0
               then createGroundLine_double (size_z sz)
                      (double (X + double (of_int i * 0.75))) (double (Z + 0.5)) w
               else createGroundLine_double (size_z sz)
                      (double (X + double (of_int i * 0.75))) Z w) = Inr ?w1"
    unfolding par x createGroundLine_double_def
    using createGroundLine_double_loop_Some [OF Suc.prems(1) c] by simp
  have sg1: "shadowGenerator ?w1 =
      Some (fold addShadowCaster [length (meshes w)..<length (meshes w) + ?c] sg)"
    by simp
  have step: "createGround_double_loop i sz X Z w = createGround_double_loop (i + 1) sz X Z ?w1"
    using lt by (subst createGround_double_loop.simps) (simp only: line if_True sum.case)
  have suc: "nat (i + 1) = Suc (nat i)"
    using Suc.prems(2) by simp
  show ?case
    unfolding step Suc.IH [OF sg1 i1 n] suc
    by (simp add: field_columns_double_Suc length_line_columns_double line_calls_add
        fold_addShadowCaster_add)
qed

lemma createGround_double_runs:
  assumes "shadowGenerator w \<noteq> None"
  shows "\<exists>w'. createGround_double sz X Z w = Inr w' \<and>
      new_meshes w w' =
        field_columns_double (random_source w) (random_calls w) X Z
          (nat (size_z sz)) 0 (nat (size_x sz))"
proof -
  from assms obtain sg where sg: "shadowGenerator w = Some sg" by auto
  show ?thesis
    unfolding createGround_double_def
    using createGround_double_loop_Some [OF sg, of 0 "nat (size_x sz)" sz X Z]
    by (simp add: new_meshes_def)
qed

lemma field_double_points:
  "map mesh_point (field_columns_double rnd k X Z c 0 r) =
     concat (map (\<lambda>i. map (\<lambda>j. (double (X + double (real i * 0.75)),
                                  (next_z ^^ j) (if even i then double (Z + 0.5) else Z)))
                        [0..<c])
              [0..<r])"
  by (simp add: field_columns_double_def line_columns_double_def map_concat comp_def
      mesh_point_def column_double_def)

lemma layout_double_nth:
  assumes "new_meshes w w' = field_columns_double rnd k X Z c 0 r" and "i < r" and "j < c"
  shows "map mesh_point (new_meshes w w') ! (i * c + j) =
     (double (X + double (real i * 0.75)),
      (next_z ^^ j) (if even i then double (Z + 0.5) else Z))"
  unfolding assms(1) field_double_points
  using concat_rows [of "\<lambda>i j. (double (X + double (real i * 0.75)),
      (next_z ^^ j) (if even i then double (Z + 0.5) else Z))" c r] assms(2,3)
  by blast

lemma field_column_double_shape:
  assumes "m \<in> set (field_columns_double rnd k X Z c r n)"
  shows "\<exists>x z q. m = column_double x z (double (double (rnd q / 2) + 0.5))"
  using assms by (auto simp: field_columns_double_def line_columns_double_def)

lemma added_by_double:
  assumes "shadowGenerator w \<noteq> None"
  shows "added_by w (createGround_double sz X Z w) =
     field_columns_double (random_source w) (random_calls w) X Z
       (nat (size_z sz)) 0 (nat (size_x sz))"
  using createGround_double_runs [OF assms, of sz X Z] by (auto simp: added_by_def)

lemma Init_facts:
  "shadowGenerator (Init c (initial_world rnd)) \<noteq> None"
  "random_source (Init c (initial_world rnd)) = rnd"
  "random_calls (Init c (initial_world rnd)) = 0"
  by (simp_all add: Init_hooks Init_random initial_world_def)

section \<open>The claims\<close>

text \<open>
  C1. For non-negative \<open>rowCount\<close> and \<open>columnsPerRow\<close>, with the shadow generator
  defined, \<open>createGround\<close> returns, leaves the meshes of the scene in place and adds
  exactly \<open>rowCount * columnsPerRow\<close> columns; their points are, in this order, the
  points of \<open>generateLayout\<close>: row by row, and inside a row column by column.
\<close>

theorem createGround_layout_count:
  assumes "0 \<le> rowCount" and "0 \<le> columnsPerRow" and "shadowGenerator w \<noteq> None"
  shows "\<exists>w'. createGround \<lparr>size_x = rowCount, size_z = columnsPerRow\<rparr> originX originZ w = Inr w'
     \<and> meshes w' = meshes w @ new_meshes w w'
     \<and> length (new_meshes w w') = nat (rowCount * columnsPerRow)
     \<and> generateLayout rowCount columnsPerRow originX originZ
         = Inr (map mesh_point (new_meshes w w'))"
proof -
  let ?sz = "\<lparr>size_x = rowCount, size_z = columnsPerRow\<rparr>"
  from createGround_runs [OF assms(3), of ?sz originX originZ]
  obtain w' where run: "createGround ?sz originX originZ w = Inr w'"
    and new: "new_meshes w w' = field_columns (random_source w) (random_calls w)
         originX originZ (nat columnsPerRow) 0 (nat rowCount)"
    by auto
  have "meshes w' = meshes w @ new_meshes w w'"
    using createGround_meshes [OF run] by (simp add: new_meshes_def)
  moreover have "length (new_meshes w w') = nat (rowCount * columnsPerRow)"
    using assms(1) by (simp add: new length_field_columns nat_mult_distrib)
  moreover have "generateLayout rowCount columnsPerRow originX originZ
         = Inr (map mesh_point (new_meshes w w'))"
    using assms(1,2) by (simp add: generateLayout_def layout_points [OF new])
  ultimately show ?thesis
    using run by blast
qed

theorem createGround_layout_count_witness:
  "(0::int) \<le> 2 \<and> (0::int) \<le> 3 \<and> shadowGenerator mounted_world \<noteq> None
   \<and> (\<exists>w'. createGround \<lparr>size_x = 2, size_z = 3\<rparr> 0 0 mounted_world = Inr w'
     \<and> meshes w' = meshes mounted_world @ new_meshes mounted_world w'
     \<and> length (new_meshes mounted_world w') = 6
     \<and> generateLayout 2 3 0 0 = Inr (map mesh_point (new_meshes mounted_world w')))"
proof -
  have sg: "shadowGenerator mounted_world \<noteq> None"
    by (simp add: mounted_world_facts)
  show ?thesis
    using sg createGround_layout_count [OF _ _ sg, of 2 3 0 0] by simp
qed



text \<open>
  C3, as amended. The code computes in doubles. Every point of row \<open>i\<close> has for \<open>x\<close> the
  double \<open>XPos + i * 0.75\<close>, product and sum each rounded, and each next \<open>z\<close> of a row is
  the double nearest to the sum of the \<open>z\<close> before and the double \<open>Math.sqrt(3) / 2\<close>.
  So \<open>x\<close> is \<open>XPos + i * 0.75\<close>, and two successive \<open>z\<close> differ by \<open>\<surd>3/2\<close>, up to
  rounding only: each rounding errs by at most half an \<open>ulp\<close>. The claim as written
  does not hold: at \<open>XPos = 10\<^sup>1\<^sup>7\<close> the rows \<open>0\<close> and \<open>1\<close> have the same \<open>x\<close>, and the
  difference of two successive \<open>z\<close>, a rational number, is never \<open>\<surd>3/2\<close>.
\<close>

theorem createGround_double_spacing:
  assumes "shadowGenerator w \<noteq> None"
  shows "\<exists>w'. createGround_double sz XPos ZPos w = Inr w'
     \<and> (\<forall>i j. i < nat (size_x sz) \<and> j < nat (size_z sz) \<longrightarrow>
           fst (map mesh_point (new_meshes w w') ! (i * nat (size_z sz) + j))
             = double (XPos + double (real i * 0.75))
           \<and> \<bar>fst (map mesh_point (new_meshes w w') ! (i * nat (size_z sz) + j))
                - (XPos + real i * 0.75)\<bar>
               \<le> rounding_error (XPos + double (real i * 0.75)) + rounding_error (real i * 0.75))
     \<and> (\<forall>i j. i < nat (size_x sz) \<and> Suc j < nat (size_z sz) \<longrightarrow>
           snd (map mesh_point (new_meshes w w') ! (i * nat (size_z sz) + Suc j))
             = double (snd (map mesh_point (new_meshes w w') ! (i * nat (size_z sz) + j))
                       + double (Math_sqrt 3 / 2))
           \<and> \<bar>snd (map mesh_point (new_meshes w w') ! (i * nat (size_z sz) + Suc j))
                - snd (map mesh_point (new_meshes w w') ! (i * nat (size_z sz) + j))
                - sqrt 3 / 2\<bar>
               \<le> rounding_error
                     (snd (map mesh_point (new_meshes w w') ! (i * nat (size_z sz) + j))
                      + double (Math_sqrt 3 / 2))
                   + 1 / 2 ^ 53)"
proof -
  from createGround_double_runs [OF assms, of sz XPos ZPos]
  obtain w' where run: "createGround_double sz XPos ZPos w = Inr w'"
    and new: "new_meshes w w' = field_columns_double (random_source w) (random_calls w)
         XPos ZPos (nat (size_z sz)) 0 (nat (size_x sz))"
    by auto
  let ?P = "map mesh_point (new_meshes w w')"
  let ?c = "nat (size_z sz)"
  note nth = layout_double_nth [OF new]
  have x: "fst (?P ! (i * ?c + j)) = double (XPos + double (real i * 0.75))
           \<and> \<bar>fst (?P ! (i * ?c + j)) - (XPos + real i * 0.75)\<bar>
               \<le> rounding_error (XPos + double (real i * 0.75)) + rounding_error (real i * 0.75)"
    if "i < nat (size_x sz)" "j < ?c" for i j
    using nth [OF that] row_x_error [of XPos "real i * 0.75"] by simp
  have z: "snd (?P ! (i * ?c + Suc j)) = double (snd (?P ! (i * ?c + j)) + double (Math_sqrt 3 / 2))
           \<and> \<bar>snd (?P ! (i * ?c + Suc j)) - snd (?P ! (i * ?c + j)) - sqrt 3 / 2\<bar>
               \<le> rounding_error (snd (?P ! (i * ?c + j)) + double (Math_sqrt 3 / 2)) + 1 / 2 ^ 53"
    if "i < nat (size_x sz)" "Suc j < ?c" for i j
  proof -
    have j: "j < ?c" using that(2) by simp
    have "snd (?P ! (i * ?c + Suc j)) = next_z (snd (?P ! (i * ?c + j)))"
      using nth [OF that] nth [OF that(1) j] by simp
    then show ?thesis
      using next_z_error [of "snd (?P ! (i * ?c + j))"] by (simp add: next_z_def)
  qed
  show ?thesis
    using run x z by blast
qed

theorem createGround_double_spacing_witness:
  "shadowGenerator mounted_world \<noteq> None
   \<and> (\<exists>w'. createGround_double \<lparr>size_x = 2, size_z = 3\<rparr> 1 2 mounted_world = Inr w'
     \<and> fst (map mesh_point (new_meshes mounted_world w') ! 4) = double (1 + double (3 / 4))
     \<and> snd (map mesh_point (new_meshes mounted_world w') ! 5)
         = double (snd (map mesh_point (new_meshes mounted_world w') ! 4)
                   + double (Math_sqrt 3 / 2)))"
proof -
  have sg: "shadowGenerator mounted_world \<noteq> None"
    by (simp add: mounted_world_facts)
  from createGround_double_spacing [OF sg, of "\<lparr>size_x = 2, size_z = 3\<rparr>" 1 2]
  obtain w' where run: "createGround_double \<lparr>size_x = 2, size_z = 3\<rparr> 1 2 mounted_world = Inr w'"
    and x: "\<forall>i j. i < nat 2 \<and> j < nat 3 \<longrightarrow>
        fst (map mesh_point (new_meshes mounted_world w') ! (i * nat 3 + j))
          = double (1 + double (real i * 0.75))
        \<and> \<bar>fst (map mesh_point (new_meshes mounted_world w') ! (i * nat 3 + j))
             - (1 + real i * 0.75)\<bar>
            \<le> rounding_error (1 + double (real i * 0.75)) + rounding_error (real i * 0.75)"
    and z: "\<forall>i j. i < nat 2 \<and> Suc j < nat 3 \<longrightarrow>
        snd (map mesh_point (new_meshes mounted_world w') ! (i * nat 3 + Suc j))
          = double (snd (map mesh_point (new_meshes mounted_world w') ! (i * nat 3 + j))
                    + double (Math_sqrt 3 / 2))
        \<and> \<bar>snd (map mesh_point (new_meshes mounted_world w') ! (i * nat 3 + Suc j))
             - snd (map mesh_point (new_meshes mounted_world w') ! (i * nat 3 + j))
             - sqrt 3 / 2\<bar>
            \<le> rounding_error
                  (snd (map mesh_point (new_meshes mounted_world w') ! (i * nat 3 + j))
                   + double (Math_sqrt 3 / 2))
                + 1 / 2 ^ 53"
    by auto
  from x [rule_format, of 1 1] z [rule_format, of 1 1]
  have "fst (map mesh_point (new_meshes mounted_world w') ! 4) = double (1 + double (3 / 4))"
    and "snd (map mesh_point (new_meshes mounted_world w') ! 5)
         = double (snd (map mesh_point (new_meshes mounted_world w') ! 4)
                   + double (Math_sqrt 3 / 2))"
    by simp_all
  with run sg show ?thesis
    by blast
qed

theorem createGround_spacing_counterexample:
  "map mesh_point (added_by mounted_world
       (createGround_double \<lparr>size_x = 2, size_z = 1\<rparr> (10 ^ 17) 0 mounted_world))
     = [(10 ^ 17, 1 / 2), (10 ^ 17, 0)]
   \<and> snd (map mesh_point (added_by mounted_world
           (createGround_double \<lparr>size_x = 1, size_z = 2\<rparr> 0 0 mounted_world)) ! 1)
       - snd (map mesh_point (added_by mounted_world
           (createGround_double \<lparr>size_x = 1, size_z = 2\<rparr> 0 0 mounted_world)) ! 0)
       \<noteq> sqrt 3 / 2"
proof
  have sg: "shadowGenerator mounted_world \<noteq> None"
    by (simp add: mounted_world_facts)
  have two: "[0..<2] = [0, Suc 0]"
    by (simp add: upt_rec)
  show "map mesh_point (added_by mounted_world
       (createGround_double \<lparr>size_x = 2, size_z = 1\<rparr> (10 ^ 17) 0 mounted_world))
     = [(10 ^ 17, 1 / 2), (10 ^ 17, 0)]"
    by (simp add: added_by_double [OF sg] field_double_points two double_1e17_numeral
        double_three_quarters)
  let ?z1 = "double (1 / 2 + double (Math_sqrt 3 / 2))"
  have pts: "map mesh_point (added_by mounted_world
           (createGround_double \<lparr>size_x = 1, size_z = 2\<rparr> 0 0 mounted_world))
       = [(0, 1 / 2), (0, ?z1)]"
    by (simp add: added_by_double [OF sg] field_double_points two next_z_def)
  have "?z1 - 1 / 2 \<noteq> sqrt 3 / 2"
  proof
    assume "?z1 - 1 / 2 = sqrt 3 / 2"
    then have "sqrt 3 = 2 * ?z1 - 1"
      by simp
    moreover have "2 * ?z1 - 1 \<in> \<rat>"
      by (intro Rats_diff Rats_mult double_Rats) simp_all
    ultimately show False
      using sqrt3_irrational by simp
  qed
  then show "snd (map mesh_point (added_by mounted_world
           (createGround_double \<lparr>size_x = 1, size_z = 2\<rparr> 0 0 mounted_world)) ! 1)
       - snd (map mesh_point (added_by mounted_world
           (createGround_double \<lparr>size_x = 1, size_z = 2\<rparr> 0 0 mounted_world)) ! 0)
       \<noteq> sqrt 3 / 2"
    unfolding pts by simp
qed

text \<open>
  C4, as amended. The code computes in doubles. With \<open>Math.random()\<close> in \<open>[0, 1)\<close> and
  the shadow generator defined, every column that \<open>createGround\<close> adds is a cylinder of
  diameter 1 with 6 sides whose height lies in the closed interval \<open>[0.5, 1]\<close> and whose
  \<open>position.y\<close> is exactly half its height. The claim as written (a height below 1)
  does not hold: when \<open>Math.random()\<close> returns the largest double below 1, the sum
  \<open>Math.random() / 2 + 0.5\<close> rounds to 1. The distribution of the heights is not stated.
\<close>

theorem column_height_double:
  assumes "shadowGenerator w \<noteq> None"
    and "\<forall>n. 0 \<le> random_source w n \<and> random_source w n < 1"
  shows "\<exists>w'. createGround_double sz XPos ZPos w = Inr w'
     \<and> (\<forall>m\<in>set (new_meshes w w').
           \<exists>height. shape m = Cylinder 1 6 height \<and> 0.5 \<le> height \<and> height \<le> 1
             \<and> vec_y (position m) = height / 2)"
proof -
  from createGround_double_runs [OF assms(1), of sz XPos ZPos]
  obtain w' where run: "createGround_double sz XPos ZPos w = Inr w'"
    and new: "new_meshes w w' = field_columns_double (random_source w) (random_calls w)
         XPos ZPos (nat (size_z sz)) 0 (nat (size_x sz))"
    by auto
  have "\<exists>height. shape m = Cylinder 1 6 height \<and> 0.5 \<le> height \<and> height \<le> 1
             \<and> vec_y (position m) = height / 2"
    if "m \<in> set (new_meshes w w')" for m
  proof -
    from that obtain x z q
      where m: "m = column_double x z (double (double (random_source w q / 2) + 0.5))"
      unfolding new by (blast dest: field_column_double_shape)
    have "0 \<le> random_source w q" and "random_source w q < 1"
      using assms(2) by simp_all
    from height_double_range [OF this] show ?thesis
      by (simp add: m column_double_def)
  qed
  then show ?thesis
    using run by blast
qed

theorem column_height_double_witness:
  "shadowGenerator mounted_world \<noteq> None
   \<and> (\<forall>n. 0 \<le> random_source mounted_world n \<and> random_source mounted_world n < 1)
   \<and> (\<exists>w' m. createGround_double \<lparr>size_x = 1, size_z = 1\<rparr> 0 0 mounted_world = Inr w'
     \<and> new_meshes mounted_world w' = [m]
     \<and> (\<exists>height. shape m = Cylinder 1 6 height \<and> 0.5 \<le> height \<and> height \<le> 1
           \<and> vec_y (position m) = height / 2))"
proof -
  let ?sz = "\<lparr>size_x = 1, size_z = 1\<rparr>"
  have sg: "shadowGenerator mounted_world \<noteq> None"
    by (simp add: mounted_world_facts)
  have rnd: "\<forall>n. 0 \<le> random_source mounted_world n \<and> random_source mounted_world n < 1"
    by (simp add: mounted_world_facts fixed_random_def)
  from column_height_double [OF sg rnd, of ?sz 0 0]
  obtain w' where run: "createGround_double ?sz 0 0 mounted_world = Inr w'"
    and all: "\<forall>m\<in>set (new_meshes mounted_world w').
           \<exists>height. shape m = Cylinder 1 6 height \<and> 0.5 \<le> height \<and> height \<le> 1
             \<and> vec_y (position m) = height / 2"
    by auto
  from createGround_double_runs [OF sg, of ?sz 0 0] run
  obtain m where new: "new_meshes mounted_world w' = [m]"
    by (auto simp: field_columns_double_def line_columns_double_def)
  then have "m \<in> set (new_meshes mounted_world w')"
    by simp
  with all have "\<exists>height. shape m = Cylinder 1 6 height \<and> 0.5 \<le> height \<and> height \<le> 1
             \<and> vec_y (position m) = height / 2"
    by blast
  with run new sg rnd show ?thesis
    by blast
qed

theorem column_height_one_counterexample:
  "map shape (added_by (Init (Canvas 0) (initial_world largest_draw))
       (createGround_double \<lparr>size_x = 1, size_z = 1\<rparr> 0 0
          (Init (Canvas 0) (initial_world largest_draw))))
     = [Cylinder 1 6 1]"
proof -
  have "double (double (largest_draw 0 / 2) + 0.5) = 1"
    unfolding largest_draw_def by (rule double_largest_draw)
  then show ?thesis
    by (simp add: added_by_double Init_facts field_columns_double_def line_columns_double_def
        column_double_def)
qed

text \<open>
  C5, as amended. \<open>createGround\<close> has no check of its size: with a negative \<open>size.x\<close> or a
  negative \<open>size.z\<close> it makes no column and returns, leaving the world as it was. The
  claim as written (a failure with \<open>InvalidArgument\<close>) does not hold: the run at the
  size \<open>(-1, 5)\<close> returns.
\<close>

theorem createGround_negative_returns:
  assumes "rowCount < 0 \<or> columnsPerRow < 0"
  shows "createGround \<lparr>size_x = rowCount, size_z = columnsPerRow\<rparr> originX originZ w = Inr w"
  using assms by (intro createGround_empty) auto

theorem createGround_negative_returns_witness:
  "((3::int) < 0 \<or> (- 2::int) < 0)
   \<and> createGround \<lparr>size_x = 3, size_z = - 2\<rparr> 0 0 mounted_world = Inr mounted_world"
  using createGround_negative_returns [of 3 "- 2" 0 0 mounted_world] by simp

theorem createGround_negative_counterexample:
  "createGround \<lparr>size_x = - 1, size_z = 5\<rparr> 0 0 mounted_world = Inr mounted_world"
  by (rule createGround_empty) simp

text \<open>
  C6. With the shadow generator defined and every caster a mesh of the scene,
  \<open>createGround\<close> returns having added \<open>N = size.x * size.z\<close> columns (no negative
  count); the render list of the shadow generator is the former list followed by the
  \<open>N\<close> new meshes, each once, so the list and the set of casters both grow by exactly
  \<open>N\<close>; every new column receives shadows.
\<close>

theorem createGround_shadow_casters:
  assumes "shadowGenerator w = Some sg" and "casters_in_scene w"
  shows "\<exists>w' sg'. createGround sz XPos ZPos w = Inr w' \<and> shadowGenerator w' = Some sg'
     \<and> length (new_meshes w w') = nat (size_x sz) * nat (size_z sz)
     \<and> renderList sg' = renderList sg @ [length (meshes w)..<length (meshes w')]
     \<and> length (renderList sg') = length (renderList sg) + length (new_meshes w w')
     \<and> card (set (renderList sg')) = card (set (renderList sg)) + length (new_meshes w w')
     \<and> list_all receiveShadows (new_meshes w w')
     \<and> casters_in_scene w'"
proof -
  let ?l = "length (meshes w)"
  let ?n = "nat (size_x sz) * nat (size_z sz)"
  let ?cols = "field_columns (random_source w) (random_calls w) XPos ZPos
      (nat (size_z sz)) 0 (nat (size_x sz))"
  let ?sg' = "sg\<lparr>renderList := renderList sg @ [?l..<?l + ?n]\<rparr>"
  let ?w' = "w\<lparr>meshes := meshes w @ ?cols, shadowGenerator := Some ?sg',
      random_calls := random_calls w + ?n, calls := calls w @ line_calls ?l ?n\<rparr>"
  have old: "\<forall>obj\<in>set (renderList sg). obj < ?l"
    using assms by (simp add: casters_in_scene_def list_all_iff)
  have run: "createGround sz XPos ZPos w = Inr ?w'"
    by (simp add: createGround_Some [OF assms(1)] fold_addShadowCaster_fresh [OF old])
  have len: "length (meshes ?w') = ?l + ?n"
    by (simp add: length_field_columns)
  have new: "new_meshes w ?w' = ?cols"
    by (simp add: new_meshes_def)
  have "set (renderList sg) \<inter> {?l..<?l + ?n} = {}"
    using old by auto
  then have card: "card (set (renderList ?sg')) = card (set (renderList sg)) + ?n"
    by (simp add: card_Un_disjoint)
  have shadows: "list_all receiveShadows ?cols"
    by (auto simp: list_all_iff column_def dest: field_column_shape)
  have inv: "casters_in_scene ?w'"
    using old by (auto simp: casters_in_scene_def list_all_iff length_field_columns)
  have "createGround sz XPos ZPos w = Inr ?w' \<and> shadowGenerator ?w' = Some ?sg'
     \<and> length (new_meshes w ?w') = ?n
     \<and> renderList ?sg' = renderList sg @ [?l..<length (meshes ?w')]
     \<and> length (renderList ?sg') = length (renderList sg) + length (new_meshes w ?w')
     \<and> card (set (renderList ?sg')) = card (set (renderList sg)) + length (new_meshes w ?w')
     \<and> list_all receiveShadows (new_meshes w ?w')
     \<and> casters_in_scene ?w'"
    unfolding new len using run card shadows inv
    by (simp add: length_field_columns mult.commute)
  then show ?thesis
    by blast
qed

theorem createGround_shadow_casters_witness:
  "shadowGenerator mounted_world = Some \<lparr>mapSize = 1024, sg_light = 0, renderList = []\<rparr>
   \<and> casters_in_scene mounted_world
   \<and> (\<exists>w' sg'. createGround \<lparr>size_x = 2, size_z = 3\<rparr> 0 0 mounted_world = Inr w'
     \<and> shadowGenerator w' = Some sg'
     \<and> length (new_meshes mounted_world w') = 6
     \<and> renderList sg' = [2..<length (meshes w')]
     \<and> length (renderList sg') = 6
     \<and> card (set (renderList sg')) = 6
     \<and> list_all receiveShadows (new_meshes mounted_world w')
     \<and> casters_in_scene w')"
proof -
  have sg: "shadowGenerator mounted_world = Some \<lparr>mapSize = 1024, sg_light = 0, renderList = []\<rparr>"
    by (simp add: mounted_world_facts)
  have inv: "casters_in_scene mounted_world"
    by (simp add: casters_in_scene_def mounted_world_facts)
  show ?thesis
    using sg inv createGround_shadow_casters [OF sg inv, of "\<lparr>size_x = 2, size_z = 3\<rparr>" 0 0]
    by (fastforce simp: mounted_world_facts)
qed

text \<open>
  C7. \<open>createScene\<close> calls, in this order: the scene, the camera (target set, control
  attached to the canvas), the directional light, the shadow generator of size 1024,
  the ground (material, texture, height-map mesh), the sky box (box, material, cube
  texture). The scene it returns holds one camera, attached to the canvas, one light,
  the ground and one sky box, and the variable \<open>shadowGenerator\<close> holds one generator
  bound to that light (light number 0), with no caster yet.
\<close>

theorem createScene_construction_order:
  "calls (createScene e c w) = calls w @
     [NewScene, NewArcRotateCamera, CameraSetTarget, CameraAttachControl,
      NewDirectionalLight, NewShadowGenerator 1024,
      NewStandardMaterial ''ground'', NewTexture ''/src/assets/map/bit_map.png'',
      CreateGroundFromHeightMap,
      CreateBox, NewStandardMaterial ''skyBox'', NewCubeTexture ''src/assets/map/skybox/skybox'']
   \<and> map cam_name (cameras (createScene e c w)) = [''camera'']
   \<and> map attached_to (cameras (createScene e c w)) = [Some c]
   \<and> map light_name (lights (createScene e c w)) = [''dir01'']
   \<and> shadowGenerator (createScene e c w) = Some \<lparr>mapSize = 1024, sg_light = 0, renderList = []\<rparr>
   \<and> map mesh_name (meshes (createScene e c w)) = [''12d3'', ''skyBox'']"
  by (simp add: createScene_calls createScene_cameras createScene_lights
      createScene_shadowGenerator createScene_mesh_names)

text \<open>
  C8. The sky box that \<open>createSkyBox\<close> adds is a box of size 1000 whose material does
  not cull back faces, has a cube texture in sky-box coordinate mode as reflection
  texture, and has black diffuse and specular colours.
\<close>

theorem createSkyBox_properties:
  "\<exists>skybox skyboxMaterial tex.
     meshes (createSkyBox w) = meshes w @ [skybox]
     \<and> mesh_name skybox = ''skyBox'' \<and> shape skybox = Box 1000
     \<and> mesh_material skybox = Some skyboxMaterial
     \<and> backFaceCulling skyboxMaterial = False
     \<and> reflectionTexture skyboxMaterial = Some tex
     \<and> tex_kind tex = CubeMap \<and> coordinatesMode tex = SKYBOX_MODE
     \<and> diffuseColor skyboxMaterial = \<lparr>col_r = 0, col_g = 0, col_b = 0\<rparr>
     \<and> specularColor skyboxMaterial = \<lparr>col_r = 0, col_g = 0, col_b = 0\<rparr>"
  by (simp add: createSkyBox_result)

text \<open>
  C9, as amended. \<open>Init\<close> adds its resize listener to the window and its render loop to
  its engine, and nothing ever removes them. So for the engine that a run of \<open>Init\<close>
  makes, whatever was mounted before and whatever frames, window events and further
  mounts follow: every resize event makes exactly one call of \<open>resize()\<close> of that engine,
  and every frame exactly one call of \<open>render()\<close> of its scene. The claim as written does
  not hold once \<open>Init\<close> has run twice: one resize event then makes two calls of
  \<open>engine.resize()\<close>, one for each engine. The host runs one closure at a time.
\<close>

theorem resize_and_render_per_engine:
  assumes "closures_known w"
  shows "closures_known (fold dispatch evs (Init c w))
     \<and> count_list (calls (fold dispatch evs (Init c w))) (EngineResize (length (activeRenderLoops w)))
         = count_list (calls w) (EngineResize (length (activeRenderLoops w)))
           + count_list evs (WindowEvent ''resize'')
     \<and> count_list (calls (fold dispatch evs (Init c w))) (SceneRender (length (activeRenderLoops w)))
         = count_list (calls w) (SceneRender (length (activeRenderLoops w)))
           + count_list evs AnimationFrame
     \<and> count_list (reaction (WindowEvent ''resize'') (fold dispatch evs (Init c w)))
           (EngineResize (length (activeRenderLoops w))) = 1
     \<and> count_list (reaction AnimationFrame (fold dispatch evs (Init c w)))
           (SceneRender (length (activeRenderLoops w))) = 1
     \<and> length (reaction (WindowEvent ''resize'') (fold dispatch evs (Init c w)))
         = length (listeners_of ''resize'' w) + 1 + length (filter is_mount evs)"
proof -
  let ?e = "length (activeRenderLoops w)"
  let ?W = "fold dispatch evs (Init c w)"
  have start: "hooked ?e (Init c w)"
    by (rule hooked_Init [OF assms])
  have run: "hooked ?e ?W"
    and resizes: "count_list (calls ?W) (EngineResize ?e)
         = count_list (calls (Init c w)) (EngineResize ?e) + count_list evs (WindowEvent ''resize'')"
    and renders: "count_list (calls ?W) (SceneRender ?e)
         = count_list (calls (Init c w)) (SceneRender ?e) + count_list evs AnimationFrame"
    using count_run [OF start, of evs] by simp_all
  have one_resize: "count_list (reaction (WindowEvent ''resize'') ?W) (EngineResize ?e) = 1"
    using run by (simp add: reaction_simps count_call_of hooked_def)
  have one_render: "count_list (reaction AnimationFrame ?W) (SceneRender ?e) = 1"
    using run by (simp add: reaction_simps count_call_of hooked_def)
  have known: "closures_known ?W"
    using run by (simp add: hooked_def)
  show ?thesis
    using known resizes renders one_resize one_render resize_reaction_length [of evs c w]
    by (simp add: Init_calls)
qed

theorem resize_and_render_per_engine_witness:
  "closures_known (initial_world fixed_random)
   \<and> count_list (calls (fold dispatch
          [AnimationFrame, WindowEvent ''resize'', Mount (Canvas 1), WindowEvent ''resize'',
           AnimationFrame]
          (Init (Canvas 0) (initial_world fixed_random)))) (EngineResize 0) = 2
   \<and> count_list (calls (fold dispatch
          [AnimationFrame, WindowEvent ''resize'', Mount (Canvas 1), WindowEvent ''resize'',
           AnimationFrame]
          (Init (Canvas 0) (initial_world fixed_random)))) (SceneRender 0) = 2
   \<and> length (reaction (WindowEvent ''resize'') (fold dispatch
          [AnimationFrame, WindowEvent ''resize'', Mount (Canvas 1), WindowEvent ''resize'',
           AnimationFrame]
          (Init (Canvas 0) (initial_world fixed_random)))) = 2"
proof -
  have known: "closures_known (initial_world fixed_random)"
    by (simp add: closures_known_def initial_world_def)
  show ?thesis
    using known resize_and_render_per_engine [OF known,
        of "[AnimationFrame, WindowEvent ''resize'', Mount (Canvas 1), WindowEvent ''resize'',
             AnimationFrame]" "Canvas 0"]
    by (simp add: initial_world_def listeners_of_def)
qed


theorem resize_twice_counterexample:
  "reaction (WindowEvent ''resize'') (Init (Canvas 1) mounted_world)
     = [EngineResize 0, EngineResize 1]"
  by (simp add: reaction_simps listeners_of_def Init_hooks mounted_world_hooks)

text \<open>
  C10. \<open>createScene\<close> leaves the variable \<open>shadowGenerator\<close> defined and makes no column
  itself; after it, \<open>createGroundObject\<close> and \<open>createGround\<close> return without an
  exception. While the variable is undefined, \<open>createGroundObject\<close> throws a TypeError
  at the registration of the caster, and so do \<open>createGroundLine\<close> and \<open>createGround\<close>
  as soon as they reach a first column (a positive length, a size positive in both
  directions); with no column to make they return.
\<close>

theorem shadowGenerator_dereference:
  "shadowGenerator (createScene e c w) \<noteq> None
   \<and> CreateCylinder \<notin> set (drop (length (calls w)) (calls (createScene e c w)))
   \<and> (\<exists>w'. createGroundObject x z height (createScene e c w) = Inr w')
   \<and> (\<exists>w'. createGround sz XPos ZPos (createScene e c w) = Inr w')
   \<and> (shadowGenerator w = None \<longrightarrow>
        createGroundObject x z height w = Inl TypeError
        \<and> createGroundLine len XPos ZPos w = (if 0 < len then Inl TypeError else Inr w)
        \<and> createGround sz XPos ZPos w
            = (if 0 < size_x sz \<and> 0 < size_z sz then Inl TypeError else Inr w))"
proof -
  have sg: "shadowGenerator (createScene e c w) = Some \<lparr>mapSize = 1024, sg_light = 0, renderList = []\<rparr>"
    by (rule createScene_shadowGenerator)
  then have def: "shadowGenerator (createScene e c w) \<noteq> None"
    by simp
  have trace: "CreateCylinder \<notin> set (drop (length (calls w)) (calls (createScene e c w)))"
    by (simp add: createScene_calls)
  have obj: "\<exists>w'. createGroundObject x z height (createScene e c w) = Inr w'"
    using createGroundObject_Some [OF sg] by blast
  have field: "\<exists>w'. createGround sz XPos ZPos (createScene e c w) = Inr w'"
    using createGround_runs [OF def] by blast
  have undefined: "createGroundObject x z height w = Inl TypeError
        \<and> createGroundLine len XPos ZPos w = (if 0 < len then Inl TypeError else Inr w)
        \<and> createGround sz XPos ZPos w
            = (if 0 < size_x sz \<and> 0 < size_z sz then Inl TypeError else Inr w)"
    if "shadowGenerator w = None"
    using that
    by (simp add: createGroundObject_None createGround_None createGroundLine_def
        createGroundLine_loop_None)
  show ?thesis
    using def trace obj field undefined by blast
qed

theorem shadowGenerator_dereference_witness:
  "shadowGenerator (initial_world fixed_random) = None
   \<and> createGroundObject 0 0 1 (initial_world fixed_random) = Inl TypeError
   \<and> createGroundLine 2 0 0 (initial_world fixed_random) = Inl TypeError
   \<and> createGround \<lparr>size_x = 2, size_z = 3\<rparr> 0 0 (initial_world fixed_random) = Inl TypeError
   \<and> shadowGenerator (createScene
         \<lparr>eng_id = 0, eng_canvas = Canvas 0, antialias = True, preserveDrawingBuffer = True,
          stencil = True\<rparr>
         (Canvas 0) (initial_world fixed_random)) \<noteq> None"
proof -
  have none: "shadowGenerator (initial_world fixed_random) = None"
    by (simp add: initial_world_def)
  show ?thesis
    using none shadowGenerator_dereference [of
        "\<lparr>eng_id = 0, eng_canvas = Canvas 0, antialias = True, preserveDrawingBuffer = True,
          stencil = True\<rparr>"
        "Canvas 0" "initial_world fixed_random" 0 0 1 "\<lparr>size_x = 2, size_z = 3\<rparr>" 0 0 2]
    by simp
qed

end
